theory Spec2Isabelle
  imports Complex_Main
begin

section \<open>Channel pruning of a computation graph (qonnx/transformation/pruning.py)\<close>

text \<open>
  The development embeds the functions of \<^verbatim>\<open>pruning.py\<close>: the mask transfer function
  \<^verbatim>\<open>update_node_mask\<close>, the array helper \<^verbatim>\<open>remove_masked_tensor_channels\<close> and the
  four transformations \<^verbatim>\<open>ApplyMasks\<close>, \<^verbatim>\<open>PropagateMasks\<close>, \<^verbatim>\<open>RemoveMaskedChannels\<close> and
  \<^verbatim>\<open>PruneChannels\<close>. Python exceptions are values of type \<open>error\<close>; a function that can
  raise returns \<open>error + 'a\<close> with \<open>Inl\<close> for the exception.
\<close>

subsection \<open>Exceptions\<close>

datatype error =
    Exception string
  | AssertionError string
  | AttributeError
  | ValueError
  | TypeError
  | IndexError
  | AxisError

definition ebind :: "error + 'a \<Rightarrow> ('a \<Rightarrow> error + 'b) \<Rightarrow> error + 'b" where
  "ebind r f = (case r of Inl e \<Rightarrow> Inl e | Inr x \<Rightarrow> f x)"

text \<open>A list comprehension whose element expression can raise stops at the first exception.\<close>

fun map_err :: "('a \<Rightarrow> error + 'b) \<Rightarrow> 'a list \<Rightarrow> error + 'b list" where
  "map_err f [] = Inr []"
| "map_err f (x # xs) =
     (case f x of Inl e \<Rightarrow> Inl e
      | Inr y \<Rightarrow> (case map_err f xs of Inl e \<Rightarrow> Inl e | Inr ys \<Rightarrow> Inr (y # ys)))"

text \<open>Python's \<^verbatim>\<open>xs[i]\<close> for a non-negative literal index: IndexError out of range.\<close>

definition list_index :: "'a list \<Rightarrow> nat \<Rightarrow> error + 'a" where
  "list_index xs i = (if i < length xs then Inr (xs ! i) else Inl IndexError)"

subsection \<open>Strings and integers\<close>

text \<open>
  Strings are ASCII strings. \<^verbatim>\<open>x.startswith(c)\<close> and \<^verbatim>\<open>x.replace(c, "")\<close> for a
  one-character string \<^verbatim>\<open>c\<close>.
\<close>

definition startswith :: "string \<Rightarrow> char \<Rightarrow> bool" where
  "startswith x c = (case x of [] \<Rightarrow> False | d # _ \<Rightarrow> d = c)"

definition replace_empty :: "string \<Rightarrow> char \<Rightarrow> string" where
  "replace_empty x c = filter (\<lambda>d. d \<noteq> c) x"

text \<open>
  Python's \<^verbatim>\<open>int(s)\<close> on a string, base ten: surrounding whitespace is stripped, one sign
  is allowed, and the digits may be grouped by single underscores between digits. Anything
  else raises ValueError. On an ASCII string the whitespace is the blank, tab, line feed,
  vertical tab, form feed and carriage return.
\<close>

definition is_space :: "char \<Rightarrow> bool" where
  "is_space c = (c \<in> set [CHR '' '', CHR 0x09, CHR 0x0A, CHR 0x0B, CHR 0x0C, CHR 0x0D])"

definition is_digit :: "char \<Rightarrow> bool" where
  "is_digit c = (48 \<le> (of_char c :: nat) \<and> (of_char c :: nat) \<le> 57)"

definition digit_val :: "char \<Rightarrow> nat" where
  "digit_val c = of_char c - 48"

definition digit_char :: "nat \<Rightarrow> char" where
  "digit_char d = ''0123456789'' ! d"

definition strip :: "string \<Rightarrow> string" where
  "strip s = rev (dropWhile is_space (rev (dropWhile is_space s)))"

text \<open>Digits with single underscores strictly between digits.\<close>

fun grouped_digits :: "string \<Rightarrow> bool" where
  "grouped_digits [] = False"
| "grouped_digits [c] = is_digit c"
| "grouped_digits (c # d # cs) =
     (is_digit c \<and> (if d = CHR ''_'' then grouped_digits cs else grouped_digits (d # cs)))"

definition digits_value :: "string \<Rightarrow> nat" where
  "digits_value ds = foldl (\<lambda>a c. 10 * a + digit_val c) 0 (filter (\<lambda>c. c \<noteq> CHR ''_'') ds)"

definition py_int :: "string \<Rightarrow> error + int" where
  "py_int s =
     (let t = strip s;
          (neg, ds) = (case t of
                         [] \<Rightarrow> (False, [])
                       | c # cs \<Rightarrow> if c = CHR ''-'' then (True, cs)
                                  else if c = CHR ''+'' then (False, cs) else (False, t))
      in if grouped_digits ds
         then Inr (if neg then - int (digits_value ds) else int (digits_value ds))
         else Inl ValueError)"

text \<open>Python's \<^verbatim>\<open>"%d" % n\<close> for an integer \<^verbatim>\<open>n\<close>.\<close>

fun dec_digits :: "nat \<Rightarrow> string" where
  "dec_digits n = (if n < 10 then [digit_char n]
                   else dec_digits (n div 10) @ [digit_char (n mod 10)])"

declare dec_digits.simps [simp del]

definition fmt_d :: "int \<Rightarrow> string" where
  "fmt_d n = (if n < 0 then CHR ''-'' # dec_digits (nat (- n)) else dec_digits (nat n))"

subsection \<open>Masks\<close>

text \<open>
  An element of a mask is a Python int or a Python str. A stored sparsity annotation is a
  Python set of such elements or the empty dict \<^verbatim>\<open>{}\<close> that \<^verbatim>\<open>RemoveMaskedChannels\<close>
  writes; a missing annotation is \<^verbatim>\<open>None\<close>.
\<close>

datatype elem = EInt int | EStr string

datatype pyval = PySet "elem set" | PyDict

fun is_str :: "elem \<Rightarrow> bool" where
  "is_str (EStr s) = True"
| "is_str (EInt n) = False"

fun the_int :: "elem \<Rightarrow> int" where
  "the_int (EInt n) = n"
| "the_int (EStr s) = 0"

fun the_str :: "elem \<Rightarrow> string" where
  "the_str (EStr s) = s"
| "the_str (EInt n) = []"

text \<open>
  \<^verbatim>\<open>{int(x.replace(c, "")) for x in mask if x.startswith(c)}\<close>: an int element has no
  \<^verbatim>\<open>startswith\<close> (AttributeError), a string with the prefix whose rest is no integer
  raises ValueError. When a mask holds both kinds of bad element, the set's iteration order
  decides which of the two Python raises; the model reports AttributeError.
\<close>

definition decode_prefixed :: "char \<Rightarrow> elem set \<Rightarrow> error + int set" where
  "decode_prefixed c msk =
     (if \<exists>x\<in>msk. \<not> is_str x then Inl AttributeError
      else if \<exists>x\<in>msk. startswith (the_str x) c \<and> py_int (replace_empty (the_str x) c) = Inl ValueError
      then Inl ValueError
      else Inr (\<Union>x\<in>msk. if startswith (the_str x) c
                            then {projr (py_int (replace_empty (the_str x) c))} else {}))"

text \<open>\<^verbatim>\<open>{"c%d" % x for x in mask}\<close>: \<^verbatim>\<open>%d\<close> of a string raises TypeError.\<close>

definition encode_prefixed :: "char \<Rightarrow> elem set \<Rightarrow> error + elem set" where
  "encode_prefixed c msk =
     (if \<exists>x\<in>msk. is_str x then Inl TypeError
      else Inr ((\<lambda>x. EStr (c # fmt_d (the_int x))) ` msk))"

definition ensure_masktype_is_set :: "pyval option \<Rightarrow> error + elem set" where
  "ensure_masktype_is_set msk =
     (case msk of
        Some (PySet s) \<Rightarrow> Inr s
      | None \<Rightarrow> Inr {}
      | Some PyDict \<Rightarrow> Inl (Exception ''Cannot turn {} into set''))"

subsection \<open>Nodes\<close>

text \<open>
  A node of the graph: \<^verbatim>\<open>node.op_type\<close>, \<^verbatim>\<open>node.input\<close>, \<^verbatim>\<open>node.output\<close>, the
  integer-valued attributes \<^verbatim>\<open>node.attribute\<close> and \<^verbatim>\<open>node.name\<close>.
\<close>

record node =
  op_type :: string
  node_input :: "string list"
  node_output :: "string list"
  attribute :: "(string \<times> int) list"
  node_name :: string

text \<open>
  Modelled from the spec: \<^verbatim>\<open>qonnx.util.basic.get_by_name\<close>, the attribute lookup utility
  (resolve a named attribute on a node); \<^verbatim>\<open>None\<close> when absent, so that reading \<^verbatim>\<open>.i\<close> of
  the result raises AttributeError.
\<close>

definition get_by_name :: "(string \<times> int) list \<Rightarrow> string \<Rightarrow> int option" where
  "get_by_name attrs k = map_of attrs k"

definition eltwise_ops_bidirectional :: "string list" where
  "eltwise_ops_bidirectional = [''Mul'', ''Div'', ''MultiThreshold'', ''Quant'', ''Relu'']"

definition eltwise_ops_bwdonly :: "string list" where
  "eltwise_ops_bwdonly = [''Add'', ''Sub'', ''BatchNormalization'']"

subsection \<open>The transfer function\<close>

text \<open>
  \<^verbatim>\<open>update_node_mask(node, masks_in, masks_out)\<close>. For an operator outside the three
  classes the source emits a warning and returns the normalised masks as they are.
\<close>

definition update_node_mask ::
  "node \<Rightarrow> pyval option list \<Rightarrow> pyval option list \<Rightarrow> error + (elem set list \<times> elem set list)" where
  "update_node_mask nd masks_in0 masks_out0 =
     ebind (map_err ensure_masktype_is_set masks_in0) (\<lambda>masks_in.
     ebind (map_err ensure_masktype_is_set masks_out0) (\<lambda>masks_out.
       if op_type nd \<in> set eltwise_ops_bidirectional then
         (let ret = \<Union>(set masks_in) \<union> \<Union>(set masks_out)
          in Inr (map (\<lambda>x. ret) masks_in, map (\<lambda>x. ret) masks_out))
       else if op_type nd \<in> set eltwise_ops_bwdonly then
         (let ret = \<Union>(set masks_in) \<union> \<Union>(set masks_out)
          in Inr (map (\<lambda>x. ret) masks_in, masks_out))
       else if op_type nd \<in> set [''MatMul'', ''Conv''] then
         ebind (if op_type nd = ''Conv''
                then (case get_by_name (attribute nd) ''group'' of
                        None \<Rightarrow> Inl AttributeError
                      | Some groups \<Rightarrow> Inr (groups > 1))
                else Inr False) (\<lambda>is_depthwise.
         ebind (list_index masks_in 1) (\<lambda>w_mask.
         ebind (decode_prefixed CHR ''i'' w_mask) (\<lambda>w_mask_in.
         ebind (decode_prefixed CHR ''o'' w_mask) (\<lambda>w_mask_out.
         ebind (list_index masks_in 0) (\<lambda>i_mask.
         ebind (list_index masks_out 0) (\<lambda>o_mask.
           (let mask_in = EInt ` w_mask_in \<union> i_mask;
                mask_out = EInt ` w_mask_out \<union> o_mask
            in if is_depthwise then
                 (let mask_in' = mask_in \<union> mask_out;
                      mask_out' = mask_in'
                  in ebind (encode_prefixed CHR ''o'' mask_out') (\<lambda>w_mask'.
                       Inr ([mask_in', w_mask'], [mask_out'])))
               else
                 ebind (encode_prefixed CHR ''i'' mask_in) (\<lambda>wi.
                 ebind (encode_prefixed CHR ''o'' mask_out) (\<lambda>wo.
                   Inr ([mask_in, wi \<union> wo], [mask_out]))))))))))
       else Inr (masks_in, masks_out)))"

subsection \<open>Arrays\<close>

text \<open>
  A NumPy array: its shape and its elements in row-major order. \<^verbatim>\<open>np.delete(arr, obj,
  axis)\<close> is NumPy's; it is modelled from its documentation: the axis must exist
  (AxisError), the indices must be integers within \<open>-n \<le> i < n\<close> for the extent \<open>n\<close> of
  the axis (IndexError), negative indices count from the end, and the result keeps the
  entries whose position along the axis is not listed. Order and repetition of the indices
  do not matter, so the index list is a set here.
\<close>

record ndarray =
  shape :: "nat list"
  flat :: "real list"

definition ndim :: "ndarray \<Rightarrow> nat" where
  "ndim arr = length (shape arr)"

definition np_delete :: "ndarray \<Rightarrow> elem set \<Rightarrow> nat \<Rightarrow> error + ndarray" where
  "np_delete arr obj axis =
     (if ndim arr \<le> axis then Inl AxisError
      else if \<exists>x\<in>obj. is_str x then Inl IndexError
      else (let n = shape arr ! axis in
        if \<exists>x\<in>obj. \<not> (- int n \<le> the_int x \<and> the_int x < int n) then Inl IndexError
        else (let del = (\<lambda>x. nat (if the_int x < 0 then the_int x + int n else the_int x)) ` obj;
                  inner = prod_list (drop (Suc axis) (shape arr))
              in Inr \<lparr>shape = (shape arr)[axis := n - card del],
                      flat = map (\<lambda>k. flat arr ! k)
                               (filter (\<lambda>k. (k div inner) mod n \<notin> del)
                                  [0..<length (flat arr)])\<rparr>)))"

text \<open>
  \<^verbatim>\<open>remove_masked_tensor_channels(tensor_or_shape, mask, axis)\<close> is dynamically typed in
  its first argument. The first function below is the call on an array; the second is the
  call on a shape (\<^verbatim>\<open>shape_only\<close>), where the source fills an array of that shape with
  random numbers, of which only the shape of the result is returned. \<^verbatim>\<open>np.random.rand()\<close>
  without arguments returns a float and not an array, and \<^verbatim>\<open>None\<close> is neither a list
  nor an array: both fail the source's assertion on the type.
\<close>

definition remove_masked_tensor_channels :: "ndarray \<Rightarrow> elem set \<Rightarrow> nat \<Rightarrow> error + ndarray" where
  "remove_masked_tensor_channels tensor msk axis =
     (if ndim tensor = 0 \<or> prod_list (shape tensor) = 1
      then Inr tensor
      else np_delete tensor msk axis)"

definition remove_masked_tensor_channels_shape ::
  "nat list option \<Rightarrow> elem set \<Rightarrow> nat \<Rightarrow> error + nat list" where
  "remove_masked_tensor_channels_shape shp msk axis =
     (case shp of
        None \<Rightarrow> Inl (AssertionError [])
      | Some s \<Rightarrow>
          if s = [] then Inl (AssertionError [])
          else ebind (remove_masked_tensor_channels
                        \<lparr>shape = s, flat = replicate (prod_list s) 0\<rparr> msk axis)
                 (\<lambda>ret. Inr (shape ret)))"

subsection \<open>The model store\<close>

text \<open>
  Modelled from the spec: \<^verbatim>\<open>ModelWrapper\<close>, the Model/Graph store (fixed-order node
  enumeration; per-tensor get/set for initializer data, shape, and sparsity mask;
  per-tensor consumer lookup; per-node attribute get/set). A getter returns \<^verbatim>\<open>None\<close> for
  a tensor without the item; \<^verbatim>\<open>find_consumer\<close> returns the first node that lists the
  tensor among its inputs.
\<close>

record model =
  graph_node :: "node list"
  initializer :: "string \<Rightarrow> ndarray option"
  tensor_shape :: "string \<Rightarrow> nat list option"
  tensor_sparsity :: "string \<Rightarrow> pyval option"

definition get_initializer :: "model \<Rightarrow> string \<Rightarrow> ndarray option" where
  "get_initializer m k = initializer m k"

definition set_initializer :: "model \<Rightarrow> string \<Rightarrow> ndarray \<Rightarrow> model" where
  "set_initializer m k v = m\<lparr>initializer := (initializer m)(k \<mapsto> v)\<rparr>"

definition get_tensor_shape :: "model \<Rightarrow> string \<Rightarrow> nat list option" where
  "get_tensor_shape m k = tensor_shape m k"

definition set_tensor_shape :: "model \<Rightarrow> string \<Rightarrow> nat list \<Rightarrow> model" where
  "set_tensor_shape m k v = m\<lparr>tensor_shape := (tensor_shape m)(k \<mapsto> v)\<rparr>"

definition get_tensor_sparsity :: "model \<Rightarrow> string \<Rightarrow> pyval option" where
  "get_tensor_sparsity m k = tensor_sparsity m k"

definition set_tensor_sparsity :: "model \<Rightarrow> string \<Rightarrow> pyval \<Rightarrow> model" where
  "set_tensor_sparsity m k v = m\<lparr>tensor_sparsity := (tensor_sparsity m)(k \<mapsto> v)\<rparr>"

definition find_consumer :: "model \<Rightarrow> string \<Rightarrow> node option" where
  "find_consumer m k = find (\<lambda>n. k \<in> set (node_input n)) (graph_node m)"

definition get_nodes_by_op_type :: "model \<Rightarrow> string \<Rightarrow> node list" where
  "get_nodes_by_op_type m t = filter (\<lambda>n. op_type n = t) (graph_node m)"

text \<open>\<^verbatim>\<open>get_by_name(node.attribute, k).i = v\<close> on the node at position \<open>idx\<close> of the graph.\<close>

fun set_attribute :: "(string \<times> int) list \<Rightarrow> string \<Rightarrow> int \<Rightarrow> (string \<times> int) list" where
  "set_attribute [] k v = []"
| "set_attribute ((k', v') # rest) k v =
     (if k' = k then (k', v) # rest else (k', v') # set_attribute rest k v)"

definition set_node_attribute :: "model \<Rightarrow> nat \<Rightarrow> string \<Rightarrow> int \<Rightarrow> model" where
  "set_node_attribute m idx k v =
     m\<lparr>graph_node := (graph_node m)[idx := (graph_node m ! idx)
          \<lparr>attribute := set_attribute (attribute (graph_node m ! idx)) k v\<rparr>]\<rparr>"

subsection \<open>Mask seeding: \<^verbatim>\<open>ApplyMasks\<close>\<close>

text \<open>
  The prune spec is a dict: its items in insertion order, each value a set given by its
  elements in iteration order (\<^verbatim>\<open>list(val)\<close>). The sanity check of the source looks at
  \<^verbatim>\<open>list(val)[0]\<close>.
\<close>

type_synonym prune_spec = "(string \<times> elem list) list"

definition weight_mask_check :: "elem list \<Rightarrow> error + unit" where
  "weight_mask_check val =
     (case val of
        [] \<Rightarrow> Inl IndexError
      | val_check # _ \<Rightarrow>
          if \<not> is_str val_check then Inl (AssertionError ''Weight masks must be strings'')
          else if \<not> (startswith (the_str val_check) CHR ''i'' \<or> startswith (the_str val_check) CHR ''o'')
          then Inl (AssertionError ''Weight masks must be formatted iX or oX'')
          else Inr ())"

text \<open>
  The condition \<^verbatim>\<open>t_fc_cnv_w and t_has_init\<close> of the source; \<^verbatim>\<open>t_consumer.input[1]\<close>
  raises IndexError for a consumer with one input.
\<close>

definition t_fc_cnv_w_and_has_init :: "model \<Rightarrow> string \<Rightarrow> error + bool" where
  "t_fc_cnv_w_and_has_init m key =
     (let t_has_init = (get_initializer m key \<noteq> None) in
      case find_consumer m key of
        None \<Rightarrow> Inr False
      | Some t_consumer \<Rightarrow>
          if op_type t_consumer \<in> set [''Conv'', ''MatMul'']
          then ebind (list_index (node_input t_consumer) 1) (\<lambda>w. Inr (w = key \<and> t_has_init))
          else Inr False)"

definition ApplyMasks_entry :: "string \<Rightarrow> elem list \<Rightarrow> model \<Rightarrow> error + model" where
  "ApplyMasks_entry key val m =
     ebind (t_fc_cnv_w_and_has_init m key) (\<lambda>is_w.
     ebind (if is_w then weight_mask_check val else Inr ()) (\<lambda>_.
       Inr (set_tensor_sparsity m key (PySet (set val)))))"

text \<open>
  The loop over the items. The model is mutated in place, so an exception leaves the masks
  of the earlier items installed: \<open>Inl (e, m')\<close> is the exception \<open>e\<close> together with the
  model \<open>m'\<close> as it is when \<open>e\<close> is raised.
\<close>

fun ApplyMasks_loop :: "prune_spec \<Rightarrow> model \<Rightarrow> (error \<times> model) + model" where
  "ApplyMasks_loop [] m = Inr m"
| "ApplyMasks_loop ((key, val) # rest) m =
     (case ApplyMasks_entry key val m of
        Inl e \<Rightarrow> Inl (e, m)
      | Inr m' \<Rightarrow> ApplyMasks_loop rest m')"

definition ApplyMasks_apply :: "prune_spec \<Rightarrow> model \<Rightarrow> error + (model \<times> bool)" where
  "ApplyMasks_apply spec m =
     (case ApplyMasks_loop spec m of
        Inl (e, _) \<Rightarrow> Inl e
      | Inr m' \<Rightarrow> Inr (m', False))"

subsection \<open>Propagation: \<^verbatim>\<open>PropagateMasks\<close>\<close>

text \<open>\<^verbatim>\<open>for name, annot in zip(names, annots): model.set_tensor_sparsity(name, annot)\<close>\<close>

fun set_sparsity_all :: "model \<Rightarrow> (string \<times> elem set) list \<Rightarrow> model" where
  "set_sparsity_all m [] = m"
| "set_sparsity_all m ((k, v) # rest) = set_sparsity_all (set_tensor_sparsity m k (PySet v)) rest"

text \<open>The body of the loop over the nodes, for one node.\<close>

definition propagate_node :: "node \<Rightarrow> model \<Rightarrow> error + (model \<times> bool)" where
  "propagate_node nd m =
     ebind (map_err ensure_masktype_is_set (map (get_tensor_sparsity m) (node_input nd)))
       (\<lambda>node_masks_in.
     ebind (map_err ensure_masktype_is_set (map (get_tensor_sparsity m) (node_output nd)))
       (\<lambda>node_masks_out.
     ebind (update_node_mask nd (map (\<lambda>s. Some (PySet s)) node_masks_in)
                               (map (\<lambda>s. Some (PySet s)) node_masks_out))
       (\<lambda>(new_in, new_out).
          (let in_changed = (new_in \<noteq> node_masks_in);
               out_changed = (new_out \<noteq> node_masks_out);
               m1 = set_sparsity_all m (zip (node_input nd) new_in);
               m2 = set_sparsity_all m1 (zip (node_output nd) new_out)
           in Inr (m2, in_changed \<or> out_changed)))))"

fun PropagateMasks_loop :: "node list \<Rightarrow> model \<Rightarrow> bool \<Rightarrow> error + (model \<times> bool)" where
  "PropagateMasks_loop [] m need_rerun = Inr (m, need_rerun)"
| "PropagateMasks_loop (nd # rest) m need_rerun =
     (case propagate_node nd m of
        Inl e \<Rightarrow> Inl e
      | Inr (m', changed) \<Rightarrow> PropagateMasks_loop rest m' (need_rerun \<or> changed))"

definition PropagateMasks_apply :: "model \<Rightarrow> error + (model \<times> bool)" where
  "PropagateMasks_apply m = PropagateMasks_loop (graph_node m) m False"

subsection \<open>Removal: \<^verbatim>\<open>RemoveMaskedChannels\<close>\<close>

text \<open>
  The rewriting part of the body of the inner loop, for the tensor \<open>ioname\<close> with the mask
  \<open>msk\<close> at the node at position \<open>idx\<close>: the \<^verbatim>\<open>if io_t is None: ... else: ...\<close> block.
  \<^verbatim>\<open>io_shp[1]\<close> of \<^verbatim>\<open>None\<close> raises TypeError.
\<close>

definition rewrite_tensor :: "nat \<Rightarrow> string \<Rightarrow> elem set \<Rightarrow> model \<Rightarrow> error + model" where
  "rewrite_tensor idx ioname msk m =
     (let nd = graph_node m ! idx;
          io_t = get_initializer m ioname;
          io_shp = get_tensor_shape m ioname
      in case io_t of
           None \<Rightarrow>
             ebind (remove_masked_tensor_channels_shape io_shp msk 1) (\<lambda>new_shp.
               Inr (set_tensor_shape m ioname new_shp))
         | Some t \<Rightarrow>
             if op_type nd \<in> set [''MatMul''] then
               ebind (decode_prefixed CHR ''i'' msk) (\<lambda>i_mask.
               ebind (decode_prefixed CHR ''o'' msk) (\<lambda>o_mask.
               ebind (remove_masked_tensor_channels t (EInt ` i_mask) 0) (\<lambda>new_t.
               ebind (remove_masked_tensor_channels new_t (EInt ` o_mask) 1) (\<lambda>new_t'.
                 Inr (set_initializer m ioname new_t')))))
             else if op_type nd \<in> set [''Conv''] then
               ebind (decode_prefixed CHR ''i'' msk) (\<lambda>i_mask.
               ebind (decode_prefixed CHR ''o'' msk) (\<lambda>o_mask.
               ebind (case io_shp of None \<Rightarrow> Inl TypeError
                      | Some s \<Rightarrow> list_index s 1) (\<lambda>ifm_w.
               ebind (case get_by_name (attribute nd) ''group'' of
                        None \<Rightarrow> Inl AttributeError | Some g \<Rightarrow> Inr g) (\<lambda>groups.
                 if \<not> (groups = 1 \<or> ifm_w = 1)
                 then Inl (AssertionError ''Unknown grouped conv setting'')
                 else if groups > 1 then
                   ebind (remove_masked_tensor_channels t (EInt ` o_mask) 0) (\<lambda>new_t.
                   ebind (list_index (shape new_t) 0) (\<lambda>n0.
                     Inr (set_initializer
                            (set_node_attribute m idx ''group'' (int n0)) ioname new_t)))
                 else
                   ebind (remove_masked_tensor_channels t (EInt ` i_mask) 1) (\<lambda>new_t.
                   ebind (remove_masked_tensor_channels new_t (EInt ` o_mask) 0) (\<lambda>new_t'.
                     Inr (set_initializer m ioname new_t')))))))
             else
               (let axis = (if ndim t \<ge> 2 then 1 else 0) in
                ebind (remove_masked_tensor_channels t msk axis) (\<lambda>new_t.
                  Inr (set_initializer m ioname new_t))))"

text \<open>
  The body of the inner loop. The flag of the result says whether the body reached
  \<^verbatim>\<open>need_rerun = True\<close> (it does not after \<^verbatim>\<open>continue\<close>). The test \<^verbatim>\<open>mask is None or
  mask == {}\<close> compares with the empty dict, which no Python set equals: a set, empty or
  not, goes on to the rewriting and is replaced by \<^verbatim>\<open>{}\<close> afterwards.
\<close>

definition remove_tensor :: "nat \<Rightarrow> string \<Rightarrow> model \<Rightarrow> error + (model \<times> bool)" where
  "remove_tensor idx ioname m =
     (case get_tensor_sparsity m ioname of
        None \<Rightarrow> Inr (m, False)
      | Some PyDict \<Rightarrow> Inr (m, False)
      | Some (PySet msk) \<Rightarrow>
          ebind (rewrite_tensor idx ioname msk m) (\<lambda>m'.
            Inr (set_tensor_sparsity m' ioname PyDict, True)))"

fun remove_ios :: "nat \<Rightarrow> string list \<Rightarrow> model \<Rightarrow> bool \<Rightarrow> error + (model \<times> bool)" where
  "remove_ios idx [] m need_rerun = Inr (m, need_rerun)"
| "remove_ios idx (ioname # rest) m need_rerun =
     (case remove_tensor idx ioname m of
        Inl e \<Rightarrow> Inl e
      | Inr (m', touched) \<Rightarrow> remove_ios idx rest m' (need_rerun \<or> touched))"

fun remove_nodes :: "nat list \<Rightarrow> model \<Rightarrow> bool \<Rightarrow> error + (model \<times> bool)" where
  "remove_nodes [] m need_rerun = Inr (m, need_rerun)"
| "remove_nodes (idx # rest) m need_rerun =
     (case remove_ios idx (node_input (graph_node m ! idx) @ node_output (graph_node m ! idx))
             m need_rerun of
        Inl e \<Rightarrow> Inl e
      | Inr (m', need_rerun') \<Rightarrow> remove_nodes rest m' need_rerun')"

definition RemoveMaskedChannels_apply :: "model \<Rightarrow> error + (model \<times> bool)" where
  "RemoveMaskedChannels_apply m = remove_nodes [0..<length (graph_node m)] m False"

subsection \<open>The orchestrator: \<^verbatim>\<open>PruneChannels\<close>\<close>

text \<open>
  Modelled from the spec: \<^verbatim>\<open>ModelWrapper.transform\<close>, by which \<^verbatim>\<open>PruneChannels.apply\<close>
  runs each of its three stages. The spec's orchestrator runs Seeding once, Propagation
  once, Removal once, so \<open>transform\<close> applies the stage once and returns the model.
\<close>

definition transform :: "(model \<Rightarrow> error + (model \<times> bool)) \<Rightarrow> model \<Rightarrow> error + model" where
  "transform stage m = (case stage m of Inl e \<Rightarrow> Inl e | Inr (m', _) \<Rightarrow> Inr m')"

text \<open>
  \<^verbatim>\<open>str(names)\<close> for a list of node names: the names in single quotes (the \<^verbatim>\<open>repr\<close> of
  a name that needs no escaping), separated by a comma and a blank, in square brackets.
\<close>

fun join_comma :: "string list \<Rightarrow> string" where
  "join_comma [] = []"
| "join_comma [x] = x"
| "join_comma (x # y # rest) = x @ '', '' @ join_comma (y # rest)"

definition py_str_list :: "string list \<Rightarrow> string" where
  "py_str_list names =
     ''['' @ join_comma (map (\<lambda>n. CHR 0x27 # n @ [CHR 0x27]) names) @ '']''"

text \<open>
  \<^verbatim>\<open>PruneChannels.apply\<close>, with the way a stage is run as a parameter. The two assertion
  messages of the source end in the list of the names of the offending nodes.
\<close>

definition PruneChannels_apply ::
  "((model \<Rightarrow> error + (model \<times> bool)) \<Rightarrow> model \<Rightarrow> error + model) \<Rightarrow>
     prune_spec \<Rightarrow> model \<Rightarrow> error + (model \<times> bool)" where
  "PruneChannels_apply run spec m =
     (let conv_nodes = get_nodes_by_op_type m ''Conv'';
          matmul_nodes = get_nodes_by_op_type m ''MatMul'';
          convs_with_bias = filter (\<lambda>x. length (node_input x) = 3) conv_nodes
      in if length convs_with_bias > 0
         then Inl (AssertionError (''Please extract bias from Conv nodes: '' @
                     py_str_list (map node_name convs_with_bias)))
         else
           (let dotprod_nodes = conv_nodes @ matmul_nodes in
            ebind (map_err (\<lambda>x. ebind (list_index (node_input x) 1)
                                   (\<lambda>w. Inr (x, get_initializer m w = None))) dotprod_nodes)
              (\<lambda>flagged.
                 (let dotprod_nodes_dyn_w = map fst (filter snd flagged)
                  in if length dotprod_nodes_dyn_w > 0
                     then Inl (AssertionError
                            (''Please ensure MatMul and Conv nodes have static weights: '' @
                               py_str_list (map node_name dotprod_nodes_dyn_w)))
                     else
                       ebind (run (ApplyMasks_apply spec) m) (\<lambda>m1.
                       ebind (run PropagateMasks_apply m1) (\<lambda>m2.
                       ebind (run RemoveMaskedChannels_apply m2) (\<lambda>m3.
                         Inr (m3, False))))))))"

subsection \<open>Notions used in the statements\<close>

text \<open>A non-empty string of decimal digits, as \<^verbatim>\<open>%d\<close> prints a natural number.\<close>

definition plain_digits :: "string \<Rightarrow> bool" where
  "plain_digits s = (s \<noteq> [] \<and> (\<forall>c\<in>set s. \<exists>d<10. c = digit_char d))"

text \<open>
  The mask a propagation step reads for a tensor: the stored set, and the empty set when
  there is no annotation.
\<close>

definition mask_set :: "pyval option \<Rightarrow> elem set" where
  "mask_set v = (case v of Some (PySet s) \<Rightarrow> s | _ \<Rightarrow> {})"

definition mask_of :: "model \<Rightarrow> string \<Rightarrow> elem set" where
  "mask_of m t = mask_set (get_tensor_sparsity m t)"

text \<open>A depthwise convolution for the propagation: a Conv whose group attribute exceeds 1.\<close>

definition is_depthwise :: "node \<Rightarrow> bool" where
  "is_depthwise nd =
     (op_type nd = ''Conv'' \<and>
      (case get_by_name (attribute nd) ''group'' of None \<Rightarrow> False | Some g \<Rightarrow> g > 1))"

text \<open>The weight-mask strings \<^verbatim>\<open>cX\<close> for the integers of a set.\<close>

definition prefixed :: "char \<Rightarrow> int set \<Rightarrow> elem set" where
  "prefixed c N = (\<lambda>n. EStr (c # fmt_d n)) ` N"

text \<open>The weight operand of a dot-product node: the second input of a MatMul or Conv.\<close>

definition weight_operand :: "node \<Rightarrow> string \<Rightarrow> bool" where
  "weight_operand nd t =
     (op_type nd \<in> set [''MatMul'', ''Conv''] \<and> 1 < length (node_input nd) \<and>
      t = node_input nd ! 1)"

text \<open>A tensor exempt from channel removal: rank 0, or one element in total.\<close>

definition scalar_like :: "ndarray \<Rightarrow> bool" where
  "scalar_like t = (ndim t = 0 \<or> prod_list (shape t) = 1)"

text \<open>A mask that is a Python set (empty or not), the kind the removal goes on with.\<close>

definition is_set_mask :: "pyval option \<Rightarrow> bool" where
  "is_set_mask v = (case v of Some (PySet s) \<Rightarrow> True | _ \<Rightarrow> False)"

text \<open>The tensors referenced by the nodes of the graph.\<close>

definition referenced :: "model \<Rightarrow> string set" where
  "referenced m = (\<Union>nd\<in>set (graph_node m). set (node_input nd @ node_output nd))"

text \<open>Two models whose graphs have the same nodes up to the attributes of the nodes.\<close>

definition same_io :: "model \<Rightarrow> model \<Rightarrow> bool" where
  "same_io m m' = (length (graph_node m') = length (graph_node m) \<and>
     (\<forall>i. node_input (graph_node m' ! i) = node_input (graph_node m ! i) \<and>
          node_output (graph_node m' ! i) = node_output (graph_node m ! i) \<and>
          op_type (graph_node m' ! i) = op_type (graph_node m ! i)))"

text \<open>
  What a removal sweep over the tensors \<open>K\<close> does to a model \<open>m\<close>, giving \<open>m'\<close> and the
  flag \<open>b'\<close> from the flag \<open>b\<close>: the flag is raised when a tensor of \<open>K\<close> carries a set as
  its mask, exactly these masks become the empty dict, the nodes keep their operator and
  tensors, tensors outside \<open>K\<close> keep initializer and shape, and so does every tensor whose
  initializer is exempt from removal.
\<close>

definition sweep_effect :: "string set \<Rightarrow> model \<Rightarrow> bool \<Rightarrow> model \<Rightarrow> bool \<Rightarrow> bool" where
  "sweep_effect K m b m' b' =
     (b' = (b \<or> (\<exists>k\<in>K. is_set_mask (tensor_sparsity m k))) \<and>
      same_io m m' \<and>
      (\<forall>k. tensor_sparsity m' k =
            (if k \<in> K \<and> is_set_mask (tensor_sparsity m k) then Some PyDict
             else tensor_sparsity m k)) \<and>
      (\<forall>k. k \<notin> K \<longrightarrow> initializer m' k = initializer m k \<and> tensor_shape m' k = tensor_shape m k) \<and>
      (\<forall>k t. initializer m k = Some t \<and> scalar_like t \<longrightarrow>
             initializer m' k = Some t \<and> tensor_shape m' k = tensor_shape m k))"

definition node_io :: "model \<Rightarrow> nat \<Rightarrow> string list" where
  "node_io m idx = node_input (graph_node m ! idx) @ node_output (graph_node m ! idx)"

text \<open>
  The preconditions of the orchestrator: no Conv node has three inputs, and every Conv
  and MatMul node has a second input with an initializer.
\<close>

definition preconditions :: "model \<Rightarrow> bool" where
  "preconditions m =
     ((\<forall>x\<in>set (get_nodes_by_op_type m ''Conv''). length (node_input x) \<noteq> 3) \<and>
      (\<forall>x\<in>set (get_nodes_by_op_type m ''Conv'' @ get_nodes_by_op_type m ''MatMul'').
         1 < length (node_input x) \<and> get_initializer m (node_input x ! 1) \<noteq> None))"

subsection \<open>Example graphs\<close>

text \<open>
  A depthwise convolution \<open>y = Conv(x, w)\<close> with four channels and group 4, whose weight
  carries the input-side mask entry \<^verbatim>\<open>i3\<close>.
\<close>

definition dw_conv :: node where
  "dw_conv = \<lparr>op_type = ''Conv'', node_input = [''x'', ''w''], node_output = [''y''],
              attribute = [(''group'', 4)], node_name = ''conv0''\<rparr>"

definition dw_model :: model where
  "dw_model = \<lparr>graph_node = [dw_conv],
               initializer = (\<lambda>_. None)(''w'' \<mapsto> \<lparr>shape = [4, 1, 1, 1], flat = [1, 2, 3, 4]\<rparr>),
               tensor_shape = (\<lambda>_. None)(''x'' \<mapsto> [1, 4, 2, 2], ''w'' \<mapsto> [4, 1, 1, 1],
                                         ''y'' \<mapsto> [1, 4, 2, 2]),
               tensor_sparsity = (\<lambda>_. None)(''w'' \<mapsto> PySet {EStr ''i3''})\<rparr>"

text \<open>A rectifier \<open>y = Relu(x)\<close> whose input carries the mask \<open>{1}\<close>.\<close>

definition relu_node :: node where
  "relu_node = \<lparr>op_type = ''Relu'', node_input = [''x''], node_output = [''y''],
                attribute = [], node_name = ''relu0''\<rparr>"

definition relu_model :: model where
  "relu_model = \<lparr>graph_node = [relu_node],
                 initializer = (\<lambda>_. None),
                 tensor_shape = (\<lambda>_. None)(''x'' \<mapsto> [1, 4, 2, 2], ''y'' \<mapsto> [1, 4, 2, 2]),
                 tensor_sparsity = (\<lambda>_. None)(''x'' \<mapsto> PySet {EInt 1})\<rparr>"

text \<open>An addition \<open>y = Add(a, b)\<close> with the mask \<open>{1}\<close> on \<open>a\<close> and \<open>{2}\<close> on \<open>y\<close>.\<close>

definition add_node :: node where
  "add_node = \<lparr>op_type = ''Add'', node_input = [''a'', ''b''], node_output = [''y''],
               attribute = [], node_name = ''add0''\<rparr>"

definition add_model :: model where
  "add_model = \<lparr>graph_node = [add_node],
                initializer = (\<lambda>_. None),
                tensor_shape = (\<lambda>_. None),
                tensor_sparsity = (\<lambda>_. None)(''a'' \<mapsto> PySet {EInt 1}, ''y'' \<mapsto> PySet {EInt 2})\<rparr>"

text \<open>
  A matrix product \<open>y = MatMul(x, w)\<close> with a \<open>3 \<times> 2\<close> weight whose mask is
  \<^verbatim>\<open>{"i1", "o0"}\<close>, and the mask \<open>{1}\<close> on the output.
\<close>

definition matmul_node :: node where
  "matmul_node = \<lparr>op_type = ''MatMul'', node_input = [''x'', ''w''], node_output = [''y''],
                  attribute = [], node_name = ''matmul0''\<rparr>"

definition matmul_model :: model where
  "matmul_model = \<lparr>graph_node = [matmul_node],
                   initializer = (\<lambda>_. None)(''w'' \<mapsto> \<lparr>shape = [3, 2], flat = [1, 2, 3, 4, 5, 6]\<rparr>),
                   tensor_shape = (\<lambda>_. None)(''x'' \<mapsto> [1, 3], ''w'' \<mapsto> [3, 2], ''y'' \<mapsto> [1, 2]),
                   tensor_sparsity = (\<lambda>_. None)(''w'' \<mapsto> PySet {EStr ''i1'', EStr ''o0''},
                                                ''y'' \<mapsto> PySet {EInt 1})\<rparr>"

text \<open>
  A dense convolution \<open>y = Conv(x, w)\<close> with group 1 and a \<open>2 \<times> 2 \<times> 1 \<times> 1\<close> weight, and
  a prune spec that masks channel 1 of \<open>x\<close> and then gives the weight the plain integer
  mask \<open>{1, 2}\<close>.
\<close>

definition conv_node :: node where
  "conv_node = \<lparr>op_type = ''Conv'', node_input = [''x'', ''w''], node_output = [''y''],
                attribute = [(''group'', 1)], node_name = ''conv1''\<rparr>"

definition conv_model :: model where
  "conv_model = \<lparr>graph_node = [conv_node],
                 initializer = (\<lambda>_. None)(''w'' \<mapsto> \<lparr>shape = [2, 2, 1, 1], flat = [1, 2, 3, 4]\<rparr>),
                 tensor_shape = (\<lambda>_. None)(''x'' \<mapsto> [1, 2, 3, 3], ''w'' \<mapsto> [2, 2, 1, 1],
                                           ''y'' \<mapsto> [1, 2, 3, 3]),
                 tensor_sparsity = (\<lambda>_. None)\<rparr>"

definition plain_weight_spec :: prune_spec where
  "plain_weight_spec = [(''x'', [EInt 1]), (''w'', [EInt 1, EInt 2])]"

text \<open>The test of the sanity check on the first element of a weight mask.\<close>

definition prefixed_str :: "elem \<Rightarrow> bool" where
  "prefixed_str v = (is_str v \<and> (startswith (the_str v) CHR ''i'' \<or> startswith (the_str v) CHR ''o''))"

text \<open>
  A multiplication \<open>y = Mul(x, s)\<close> by a rank-0 constant \<open>s\<close> that carries the mask
  \<open>{1, 5}\<close>.
\<close>

definition mul_node :: node where
  "mul_node = \<lparr>op_type = ''Mul'', node_input = [''x'', ''s''], node_output = [''y''],
               attribute = [], node_name = ''mul0''\<rparr>"

definition mul_model :: model where
  "mul_model = \<lparr>graph_node = [mul_node],
                initializer = (\<lambda>_. None)(''s'' \<mapsto> \<lparr>shape = [], flat = [2]\<rparr>),
                tensor_shape = (\<lambda>_. None)(''x'' \<mapsto> [1, 4, 2, 2], ''s'' \<mapsto> [],
                                          ''y'' \<mapsto> [1, 4, 2, 2]),
                tensor_sparsity = (\<lambda>_. None)(''s'' \<mapsto> PySet {EInt 1, EInt 5})\<rparr>"

text \<open>
  The rectifier \<open>y = Relu(x)\<close> without any mask, and the same graph as a propagation
  sweep leaves it: both tensors carry the empty set.
\<close>

definition relu_plain :: model where
  "relu_plain = \<lparr>graph_node = [relu_node],
                 initializer = (\<lambda>_. None),
                 tensor_shape = (\<lambda>_. None)(''x'' \<mapsto> [1, 4], ''y'' \<mapsto> [1, 4]),
                 tensor_sparsity = (\<lambda>_. None)\<rparr>"

definition relu_swept :: model where
  "relu_swept = \<lparr>graph_node = [relu_node],
                 initializer = (\<lambda>_. None),
                 tensor_shape = (\<lambda>_. None)(''x'' \<mapsto> [1, 4], ''y'' \<mapsto> [1, 4]),
                 tensor_sparsity = (\<lambda>_. None)(''x'' \<mapsto> PySet {}, ''y'' \<mapsto> PySet {})\<rparr>"

text \<open>
  The depthwise convolution of \<open>dw_model\<close> with the output-side entry \<^verbatim>\<open>o3\<close> on its
  weight, and a grouped convolution with group 2 over four input channels, whose weight
  has two input channels per group.
\<close>

definition dw_model_o :: model where
  "dw_model_o = dw_model\<lparr>tensor_sparsity := (\<lambda>_. None)(''w'' \<mapsto> PySet {EStr ''o3''})\<rparr>"

definition grouped_conv :: node where
  "grouped_conv = \<lparr>op_type = ''Conv'', node_input = [''x'', ''w''], node_output = [''y''],
                   attribute = [(''group'', 2)], node_name = ''conv2''\<rparr>"

definition grouped_model :: model where
  "grouped_model = \<lparr>graph_node = [grouped_conv],
                    initializer = (\<lambda>_. None)(''w'' \<mapsto> \<lparr>shape = [4, 2, 1, 1],
                                                        flat = [1, 2, 3, 4, 5, 6, 7, 8]\<rparr>),
                    tensor_shape = (\<lambda>_. None)(''x'' \<mapsto> [1, 4, 2, 2], ''w'' \<mapsto> [4, 2, 1, 1],
                                              ''y'' \<mapsto> [1, 4, 2, 2]),
                    tensor_sparsity = (\<lambda>_. None)(''w'' \<mapsto> PySet {EStr ''o3''})\<rparr>"

text \<open>A prune spec that masks output channel 1 of the weight of \<open>conv_model\<close>.\<close>

definition conv_spec :: prune_spec where
  "conv_spec = [(''w'', [EStr ''o1''])]"

text \<open>
  The matrix product of \<open>matmul_model\<close> with the two-digit entry \<^verbatim>\<open>i12\<close> on its weight
  and the mask \<open>{7}\<close> on its output.
\<close>

definition matmul_model2 :: model where
  "matmul_model2 = matmul_model\<lparr>tensor_sparsity :=
      (\<lambda>_. None)(''w'' \<mapsto> PySet {EStr ''i12''}, ''y'' \<mapsto> PySet {EInt 7})\<rparr>"

section \<open>Properties\<close>

subsection \<open>Printing and reading integers\<close>

lemma digit_char_props:
  assumes "d < 10"
  shows "is_digit (digit_char d)" "digit_val (digit_char d) = d" "digit_char d \<noteq> CHR ''_''"
    "\<not> is_space (digit_char d)" "digit_char d \<noteq> CHR ''i''" "digit_char d \<noteq> CHR ''o''"
    "digit_char d \<noteq> CHR ''-''" "digit_char d \<noteq> CHR ''+''"
proof -
  from assms have "d \<in> {0, 1, 2, 3, 4, 5, 6, 7, 8, 9}" by auto
  then show "is_digit (digit_char d)" "digit_val (digit_char d) = d" "digit_char d \<noteq> CHR ''_''"
    "\<not> is_space (digit_char d)" "digit_char d \<noteq> CHR ''i''" "digit_char d \<noteq> CHR ''o''"
    "digit_char d \<noteq> CHR ''-''" "digit_char d \<noteq> CHR ''+''"
    by (auto simp: digit_char_def is_digit_def digit_val_def is_space_def)
qed

lemma plain_digits_dec: "plain_digits (dec_digits n)"
proof (induction n rule: dec_digits.induct)
  case (1 n)
  show ?case
  proof (cases "n < 10")
    case True
    then show ?thesis by (subst dec_digits.simps) (auto simp: plain_digits_def)
  next
    case False
    have "\<exists>d<10. digit_char (n mod 10) = digit_char d"
      by (rule exI[of _ "n mod 10"]) simp
    with False 1 show ?thesis
      by (subst dec_digits.simps) (auto simp: plain_digits_def)
  qed
qed

lemma plain_digits_grouped: "plain_digits s \<Longrightarrow> grouped_digits s"
proof (induction s rule: grouped_digits.induct)
  case 1
  then show ?case by (simp add: plain_digits_def)
next
  case (2 c)
  then show ?case by (auto simp: plain_digits_def digit_char_props)
next
  case (3 c d cs)
  then show ?case by (auto simp: plain_digits_def digit_char_props)
qed

lemma plain_digits_filter:
  assumes "plain_digits s" and "x \<in> {CHR ''_'', CHR ''i'', CHR ''o''}"
  shows "filter (\<lambda>c. c \<noteq> x) s = s"
proof -
  have "c \<noteq> x" if "c \<in> set s" for c
  proof -
    from assms(1) that obtain d where "d < 10" "c = digit_char d"
      by (auto simp: plain_digits_def)
    with assms(2) show ?thesis by (auto simp: digit_char_props)
  qed
  then show ?thesis by (simp add: filter_id_conv)
qed

lemma dropWhile_none: "\<forall>c\<in>set s. \<not> P c \<Longrightarrow> dropWhile P s = s"
  by (cases s) auto

lemma strip_no_space: "\<forall>c\<in>set s. \<not> is_space c \<Longrightarrow> strip s = s"
proof -
  assume ns: "\<forall>c\<in>set s. \<not> is_space c"
  then have "\<forall>c\<in>set (rev s). \<not> is_space c" by simp
  then have "dropWhile is_space (rev s) = rev s" by (rule dropWhile_none)
  with ns show ?thesis by (simp add: strip_def dropWhile_none)
qed

lemma plain_digits_no_space: "plain_digits s \<Longrightarrow> \<forall>c\<in>set s. \<not> is_space c"
  by (auto simp: plain_digits_def digit_char_props)

lemma digits_value_dec: "digits_value (dec_digits n) = n"
proof (induction n rule: dec_digits.induct)
  case (1 n)
  show ?case
  proof (cases "n < 10")
    case True
    then show ?thesis
      by (subst dec_digits.simps) (simp add: digits_value_def digit_char_props)
  next
    case False
    have m: "n mod 10 < 10" by simp
    have f: "filter (\<lambda>c. c \<noteq> CHR ''_'') (dec_digits (n div 10)) = dec_digits (n div 10)"
      by (rule plain_digits_filter) (simp_all add: plain_digits_dec)
    from 1 False have ih: "digits_value (dec_digits (n div 10)) = n div 10" by simp
    show ?thesis
      using False ih f m
      by (subst dec_digits.simps) (simp add: digits_value_def digit_char_props)
  qed
qed

lemma py_int_fmt_d: "py_int (fmt_d n) = Inr n"
proof (cases "n < 0")
  case False
  let ?s = "dec_digits (nat n)"
  have p: "plain_digits ?s" by (rule plain_digits_dec)
  then obtain c cs where s: "?s = c # cs" by (cases ?s) (auto simp: plain_digits_def)
  from p s have "c \<noteq> CHR ''-''" "c \<noteq> CHR ''+''" by (auto simp: plain_digits_def digit_char_props)
  with False p s show ?thesis
    using plain_digits_grouped[OF p] digits_value_dec[of "nat n"]
    by (simp add: py_int_def fmt_d_def strip_no_space plain_digits_no_space)
next
  case True
  let ?s = "dec_digits (nat (- n))"
  have p: "plain_digits ?s" by (rule plain_digits_dec)
  have "\<not> is_space CHR ''-''" by (simp add: is_space_def)
  with plain_digits_no_space[OF p] have "\<forall>c\<in>set (CHR ''-'' # ?s). \<not> is_space c" by simp
  then have st: "strip (CHR ''-'' # ?s) = CHR ''-'' # ?s" by (rule strip_no_space)
  show ?thesis
    using True plain_digits_grouped[OF p] digits_value_dec[of "nat (- n)"]
    by (simp add: py_int_def fmt_d_def st)
qed

lemma replace_fmt_d:
  assumes "x \<in> {CHR ''i'', CHR ''o''}"
  shows "replace_empty (x # fmt_d n) x = fmt_d n"
proof -
  have "filter (\<lambda>c. c \<noteq> x) (dec_digits k) = dec_digits k" for k
    using assms by (intro plain_digits_filter plain_digits_dec) auto
  with assms show ?thesis by (auto simp: replace_empty_def fmt_d_def)
qed

subsection \<open>Exceptions, normalised masks and the store\<close>

lemma ebind_Inr_iff: "ebind r f = Inr y \<longleftrightarrow> (\<exists>x. r = Inr x \<and> f x = Inr y)"
  by (cases r) (simp_all add: ebind_def)

lemma ebind_Inr [simp]: "ebind (Inr x) f = f x"
  by (simp add: ebind_def)

lemma ebind_Inl [simp]: "ebind (Inl e) f = Inl e"
  by (simp add: ebind_def)

lemma map_err_Inr_iff:
  "map_err f xs = Inr ys \<longleftrightarrow> length ys = length xs \<and> (\<forall>i<length xs. f (xs ! i) = Inr (ys ! i))"
proof (induction xs arbitrary: ys)
  case Nil
  then show ?case by auto
next
  case (Cons x xs)
  show ?case
  proof (cases ys)
    case Nil
    then show ?thesis by (auto split: sum.splits)
  next
    case (Cons y ys')
    then show ?thesis
      using Cons.IH[of ys'] by (auto split: sum.splits simp: nth_Cons split: nat.splits)
  qed
qed

lemma ensure_Inr_iff: "ensure_masktype_is_set v = Inr s \<longleftrightarrow> v \<noteq> Some PyDict \<and> s = mask_set v"
  by (auto simp: ensure_masktype_is_set_def mask_set_def split: option.splits pyval.splits)

lemma map_err_ensure_sets: "map_err ensure_masktype_is_set (map (\<lambda>s. Some (PySet s)) xs) = Inr xs"
  by (simp add: map_err_Inr_iff ensure_Inr_iff mask_set_def)

lemma map_err_ensure_ok:
  "\<forall>v\<in>set vs. v \<noteq> Some PyDict \<Longrightarrow> map_err ensure_masktype_is_set vs = Inr (map mask_set vs)"
  by (simp add: map_err_Inr_iff ensure_Inr_iff)

lemma map_err_ensure_Inr:
  "map_err ensure_masktype_is_set vs = Inr ss \<Longrightarrow> ss = map mask_set vs \<and> (\<forall>v\<in>set vs. v \<noteq> Some PyDict)"
  by (auto simp: map_err_Inr_iff ensure_Inr_iff in_set_conv_nth intro: nth_equalityI)

lemma set_sparsity_all_fields [simp]:
  "graph_node (set_sparsity_all m kvs) = graph_node m"
  "initializer (set_sparsity_all m kvs) = initializer m"
  "tensor_shape (set_sparsity_all m kvs) = tensor_shape m"
  by (induction m kvs rule: set_sparsity_all.induct) (simp_all add: set_tensor_sparsity_def)

lemma get_set_sparsity_all:
  "get_tensor_sparsity (set_sparsity_all m kvs) t =
     (case map_of (rev kvs) t of None \<Rightarrow> get_tensor_sparsity m t | Some v \<Rightarrow> Some (PySet v))"
proof (induction m kvs rule: set_sparsity_all.induct)
  case (1 m)
  then show ?case by simp
next
  case (2 m k v rest)
  then show ?case
    by (auto simp: get_tensor_sparsity_def set_tensor_sparsity_def map_add_def split: option.splits)
qed

lemma map_of_zip_const:
  assumes "length ks = length vs" and "\<forall>v\<in>set vs. v = u" and "t \<in> set ks"
  shows "map_of (rev (zip ks vs)) t = Some u"
proof -
  from assms(1,3) have "t \<in> fst ` set (rev (zip ks vs))" by (simp add: image_iff) (metis fst_conv in_set_impl_in_set_zip1)
  then obtain v where v: "map_of (rev (zip ks vs)) t = Some v"
    by (metis map_of_eq_None_iff not_Some_eq)
  then have "(t, v) \<in> set (zip ks vs)" by (metis map_of_SomeD set_rev)
  then have "v \<in> set vs" by (rule set_zip_rightD)
  with assms(2) v show ?thesis by simp
qed

lemma map_of_zip_notin: "t \<notin> set ks \<Longrightarrow> map_of (rev (zip ks vs)) t = None"
  by (metis in_set_zipE map_of_SomeD not_Some_eq set_rev)

subsection \<open>Elementwise operators\<close>

lemma update_bidirectional:
  assumes "op_type nd \<in> set eltwise_ops_bidirectional"
  shows "update_node_mask nd (map (\<lambda>s. Some (PySet s)) mi) (map (\<lambda>s. Some (PySet s)) mo) =
           Inr (map (\<lambda>x. \<Union>(set mi) \<union> \<Union>(set mo)) mi, map (\<lambda>x. \<Union>(set mi) \<union> \<Union>(set mo)) mo)"
  using assms by (simp add: update_node_mask_def map_err_ensure_sets Let_def)

lemma bwdonly_not_bidirectional:
  "op_type nd \<in> set eltwise_ops_bwdonly \<Longrightarrow> op_type nd \<notin> set eltwise_ops_bidirectional"
  by (auto simp: eltwise_ops_bwdonly_def eltwise_ops_bidirectional_def)

lemma update_bwdonly:
  assumes "op_type nd \<in> set eltwise_ops_bwdonly"
  shows "update_node_mask nd (map (\<lambda>s. Some (PySet s)) mi) (map (\<lambda>s. Some (PySet s)) mo) =
           Inr (map (\<lambda>x. \<Union>(set mi) \<union> \<Union>(set mo)) mi, mo)"
  using assms bwdonly_not_bidirectional[OF assms]
  by (simp add: update_node_mask_def map_err_ensure_sets Let_def)

lemma Union_mask_sets:
  "\<Union>(set (map mask_set (map (get_tensor_sparsity m) ks))) = (\<Union>t\<in>set ks. mask_of m t)"
  by (auto simp: mask_of_def)

subsection \<open>Weight masks and the dot-product operators\<close>

lemma encode_Inr_iff:
  "encode_prefixed c S = Inr W \<longleftrightarrow> (\<exists>N. S = EInt ` N \<and> W = prefixed c N)"
proof
  assume "encode_prefixed c S = Inr W"
  then have ns: "\<forall>x\<in>S. \<not> is_str x" and W: "W = (\<lambda>x. EStr (c # fmt_d (the_int x))) ` S"
    by (auto simp: encode_prefixed_def split: if_splits)
  have "x = EInt (the_int x)" if "x \<in> S" for x
    using ns that by (cases x) auto
  then have "S = EInt ` (the_int ` S)" by (auto simp: image_iff)
  moreover have "W = prefixed c (the_int ` S)"
    by (simp add: W prefixed_def image_image)
  ultimately show "\<exists>N. S = EInt ` N \<and> W = prefixed c N" by blast
next
  assume "\<exists>N. S = EInt ` N \<and> W = prefixed c N"
  then show "encode_prefixed c S = Inr W"
    by (auto simp: encode_prefixed_def prefixed_def image_image)
qed

lemma decode_prefixed_same:
  assumes "c \<in> {CHR ''i'', CHR ''o''}"
  shows "decode_prefixed c (prefixed c N) = Inr N"
  using assms
  by (auto simp: decode_prefixed_def prefixed_def startswith_def replace_fmt_d py_int_fmt_d)

lemma decode_prefixed_other:
  assumes "c \<noteq> c'"
  shows "decode_prefixed c' (prefixed c N) = Inr {}"
  using assms
  by (auto simp: decode_prefixed_def prefixed_def startswith_def)

lemma decode_prefixed_Un:
  assumes "decode_prefixed c A = Inr a" and "decode_prefixed c B = Inr b"
  shows "decode_prefixed c (A \<union> B) = Inr (a \<union> b)"
  using assms
  by (auto simp: decode_prefixed_def split: if_splits)

lemma prefixed_elems: "e \<in> prefixed c N \<Longrightarrow> \<exists>n. e = EStr (c # fmt_d n)"
  by (auto simp: prefixed_def)

lemma is_depthwise_not_MatMul: "op_type nd = ''MatMul'' \<Longrightarrow> \<not> is_depthwise nd"
  by (simp add: is_depthwise_def)

lemma dotprod_not_eltwise:
  assumes "op_type nd \<in> set [''MatMul'', ''Conv'']"
  shows "op_type nd \<notin> set eltwise_ops_bidirectional" "op_type nd \<notin> set eltwise_ops_bwdonly"
  using assms by (auto simp: eltwise_ops_bwdonly_def eltwise_ops_bidirectional_def)

lemma list_index_Inr_iff: "list_index xs i = Inr x \<longleftrightarrow> i < length xs \<and> x = xs ! i"
  by (auto simp: list_index_def)

lemma update_dotprod_dense:
  assumes op: "op_type nd \<in> set [''MatMul'', ''Conv'']"
    and dw: "\<not> is_depthwise nd"
    and run: "update_node_mask nd (map (\<lambda>s. Some (PySet s)) mi) (map (\<lambda>s. Some (PySet s)) mo) = Inr (ni, no)"
  shows "\<exists>w_in w_out n_in n_out. 1 < length mi \<and> 0 < length mo \<and>
           decode_prefixed CHR ''i'' (mi ! 1) = Inr w_in \<and>
           decode_prefixed CHR ''o'' (mi ! 1) = Inr w_out \<and>
           EInt ` w_in \<union> mi ! 0 = EInt ` n_in \<and> EInt ` w_out \<union> mo ! 0 = EInt ` n_out \<and>
           ni = [EInt ` n_in, prefixed CHR ''i'' n_in \<union> prefixed CHR ''o'' n_out] \<and>
           no = [EInt ` n_out]"
proof -
  note ne = dotprod_not_eltwise[OF op]
  from run op ne obtain is_dw where
    g: "(if op_type nd = ''Conv''
         then (case get_by_name (attribute nd) ''group'' of
                 None \<Rightarrow> Inl AttributeError | Some groups \<Rightarrow> Inr (groups > 1))
         else Inr False) = Inr is_dw"
    by (auto simp: update_node_mask_def map_err_ensure_sets ebind_Inr_iff simp del: set_simps)
  with dw have "\<not> is_dw"
    by (auto simp: is_depthwise_def split: if_splits option.splits)
  with run op ne g show ?thesis
    by (auto simp: update_node_mask_def map_err_ensure_sets ebind_Inr_iff Let_def
        list_index_Inr_iff encode_Inr_iff simp del: set_simps)
qed

lemma update_dotprod_depthwise:
  assumes dw: "is_depthwise nd"
    and run: "update_node_mask nd (map (\<lambda>s. Some (PySet s)) mi) (map (\<lambda>s. Some (PySet s)) mo) = Inr (ni, no)"
  shows "\<exists>w_in w_out merged. 1 < length mi \<and> 0 < length mo \<and>
           decode_prefixed CHR ''i'' (mi ! 1) = Inr w_in \<and>
           decode_prefixed CHR ''o'' (mi ! 1) = Inr w_out \<and>
           EInt ` w_in \<union> mi ! 0 \<union> (EInt ` w_out \<union> mo ! 0) = EInt ` merged \<and>
           ni = [EInt ` merged, prefixed CHR ''o'' merged] \<and>
           no = [EInt ` merged]"
proof -
  from dw have op: "op_type nd \<in> set [''MatMul'', ''Conv'']" and cv: "op_type nd = ''Conv''"
    by (auto simp: is_depthwise_def)
  note ne = dotprod_not_eltwise[OF op]
  from dw obtain g where g: "get_by_name (attribute nd) ''group'' = Some g" "g > 1"
    by (auto simp: is_depthwise_def split: option.splits)
  with run cv ne show ?thesis
    by (auto simp: update_node_mask_def map_err_ensure_sets ebind_Inr_iff Let_def
        list_index_Inr_iff encode_Inr_iff)
qed

lemma py_int_error: "py_int s = Inl e \<Longrightarrow> e = ValueError"
  by (auto simp: py_int_def Let_def split: if_splits prod.splits)

lemma decode_prefixed_Inr_set:
  assumes "decode_prefixed c msk = Inr N"
  shows "N = {n. \<exists>s. EStr s \<in> msk \<and> startswith s c \<and> py_int (replace_empty s c) = Inr n}"
proof -
  from assms have str: "\<forall>x\<in>msk. is_str x"
    and ok: "\<forall>x\<in>msk. startswith (the_str x) c \<longrightarrow> py_int (replace_empty (the_str x) c) \<noteq> Inl ValueError"
    and N: "N = (\<Union>x\<in>msk. if startswith (the_str x) c
                            then {projr (py_int (replace_empty (the_str x) c))} else {})"
    by (auto simp: decode_prefixed_def split: if_splits)
  have r: "\<exists>n. py_int (replace_empty s c) = Inr n" if "EStr s \<in> msk" "startswith s c" for s
  proof (cases "py_int (replace_empty s c)")
    case (Inl e)
    with py_int_error[OF Inl] ok that show ?thesis by force
  next
    case (Inr n)
    then show ?thesis by blast
  qed
  show ?thesis
  proof (intro set_eqI iffI)
    fix n assume "n \<in> N"
    then obtain x where x: "x \<in> msk" "startswith (the_str x) c"
      "n = projr (py_int (replace_empty (the_str x) c))"
      unfolding N by (auto split: if_splits)
    from str x(1) obtain s where s: "x = EStr s" by (cases x) auto
    with r x obtain k where "py_int (replace_empty s c) = Inr k" by auto
    with x s show "n \<in> {n. \<exists>s. EStr s \<in> msk \<and> startswith s c \<and> py_int (replace_empty s c) = Inr n}"
      by auto
  next
    fix n assume "n \<in> {n. \<exists>s. EStr s \<in> msk \<and> startswith s c \<and> py_int (replace_empty s c) = Inr n}"
    then obtain s where "EStr s \<in> msk" "startswith s c" "py_int (replace_empty s c) = Inr n"
      by blast
    then show "n \<in> N" unfolding N by force
  qed
qed

subsection \<open>One propagation step on the store\<close>

lemma propagate_node_Inr:
  assumes "propagate_node nd m = Inr (m', changed)"
  shows "\<exists>ni no.
           update_node_mask nd (map (\<lambda>s. Some (PySet s)) (map (mask_of m) (node_input nd)))
              (map (\<lambda>s. Some (PySet s)) (map (mask_of m) (node_output nd))) = Inr (ni, no) \<and>
           m' = set_sparsity_all (set_sparsity_all m (zip (node_input nd) ni))
                  (zip (node_output nd) no) \<and>
           changed = (ni \<noteq> map (mask_of m) (node_input nd) \<or> no \<noteq> map (mask_of m) (node_output nd))"
  using assms
  by (auto simp: propagate_node_def ebind_Inr_iff Let_def mask_of_def comp_def
      dest!: map_err_ensure_Inr)

lemma mask_of_set [simp]:
  "mask_of (set_tensor_sparsity m k (PySet v)) t = (if t = k then v else mask_of m t)"
  by (simp add: mask_of_def mask_set_def get_tensor_sparsity_def set_tensor_sparsity_def)

subsection \<open>Masks only grow, weight operands apart\<close>

lemma update_unknown:
  assumes "op_type nd \<notin> set eltwise_ops_bidirectional" "op_type nd \<notin> set eltwise_ops_bwdonly"
    "op_type nd \<notin> set [''MatMul'', ''Conv'']"
  shows "update_node_mask nd (map (\<lambda>s. Some (PySet s)) mi) (map (\<lambda>s. Some (PySet s)) mo) =
           Inr (mi, mo)"
  using assms by (simp add: update_node_mask_def map_err_ensure_sets)

lemma update_grows:
  assumes run: "update_node_mask nd (map (\<lambda>s. Some (PySet s)) mi) (map (\<lambda>s. Some (PySet s)) mo) = Inr (ni, no)"
  shows "length ni \<le> length mi \<and> length no \<le> length mo \<and>
         (\<forall>i<length no. mo ! i \<subseteq> no ! i) \<and>
         (\<forall>i<length ni. (op_type nd \<in> set [''MatMul'', ''Conv''] \<and> i = 1) \<or> mi ! i \<subseteq> ni ! i)"
proof -
  consider (bidir) "op_type nd \<in> set eltwise_ops_bidirectional"
    | (bwd) "op_type nd \<in> set eltwise_ops_bwdonly"
    | (dense) "op_type nd \<in> set [''MatMul'', ''Conv'']" "\<not> is_depthwise nd"
    | (dw) "is_depthwise nd"
    | (other) "op_type nd \<notin> set eltwise_ops_bidirectional" "op_type nd \<notin> set eltwise_ops_bwdonly"
        "op_type nd \<notin> set [''MatMul'', ''Conv'']"
    by blast
  then show ?thesis
  proof cases
    case bidir
    from run update_bidirectional[OF bidir, of mi mo] have
      "ni = map (\<lambda>x. \<Union>(set mi) \<union> \<Union>(set mo)) mi" "no = map (\<lambda>x. \<Union>(set mi) \<union> \<Union>(set mo)) mo"
      by simp_all
    then show ?thesis by auto
  next
    case bwd
    from run update_bwdonly[OF bwd, of mi mo] have
      "ni = map (\<lambda>x. \<Union>(set mi) \<union> \<Union>(set mo)) mi" "no = mo"
      by auto
    then show ?thesis by auto
  next
    case dense
    from update_dotprod_dense[OF dense run] obtain w_in w_out n_in n_out where
      l: "1 < length mi" "0 < length mo"
      and mg: "EInt ` w_in \<union> mi ! 0 = EInt ` n_in" "EInt ` w_out \<union> mo ! 0 = EInt ` n_out"
      and r: "ni = [EInt ` n_in, prefixed CHR ''i'' n_in \<union> prefixed CHR ''o'' n_out]" "no = [EInt ` n_out]"
      by blast
    from mg have sub: "mi ! 0 \<subseteq> EInt ` n_in" "mo ! 0 \<subseteq> EInt ` n_out" by blast+
    from l have "length ni \<le> length mi" "length no \<le> length mo" unfolding r by (simp_all add: Suc_le_eq)
    moreover from sub have "\<forall>i<length no. mo ! i \<subseteq> no ! i" unfolding r by simp
    moreover from sub dense(1) have
      "\<forall>i<length ni. (op_type nd \<in> set [''MatMul'', ''Conv''] \<and> i = 1) \<or> mi ! i \<subseteq> ni ! i"
      unfolding r by (simp add: less_Suc_eq)
    ultimately show ?thesis by blast
  next
    case dw
    then have op: "op_type nd \<in> set [''MatMul'', ''Conv'']" by (simp add: is_depthwise_def)
    from update_dotprod_depthwise[OF dw run] obtain w_in w_out merged where
      l: "1 < length mi" "0 < length mo"
      and mg: "EInt ` w_in \<union> mi ! 0 \<union> (EInt ` w_out \<union> mo ! 0) = EInt ` merged"
      and r: "ni = [EInt ` merged, prefixed CHR ''o'' merged]" "no = [EInt ` merged]"
      by blast
    from mg have sub: "mi ! 0 \<subseteq> EInt ` merged" "mo ! 0 \<subseteq> EInt ` merged" by blast+
    from l have "length ni \<le> length mi" "length no \<le> length mo" unfolding r by (simp_all add: Suc_le_eq)
    moreover from sub have "\<forall>i<length no. mo ! i \<subseteq> no ! i" unfolding r by simp
    moreover from sub op have
      "\<forall>i<length ni. (op_type nd \<in> set [''MatMul'', ''Conv''] \<and> i = 1) \<or> mi ! i \<subseteq> ni ! i"
      unfolding r by (simp add: less_Suc_eq)
    ultimately show ?thesis by blast
  next
    case other
    from run update_unknown[OF other, of mi mo] have "ni = mi" "no = mo" by simp_all
    then show ?thesis by auto
  qed
qed

lemma set_sparsity_all_grows:
  assumes "\<forall>(k, v)\<in>set kvs. \<not> ex k \<longrightarrow> base k \<subseteq> v"
    and "\<forall>t. \<not> ex t \<longrightarrow> base t \<subseteq> mask_of m t"
  shows "\<forall>t. \<not> ex t \<longrightarrow> base t \<subseteq> mask_of (set_sparsity_all m kvs) t"
  using assms
proof (induction m kvs rule: set_sparsity_all.induct)
  case (1 m)
  then show ?case by simp
next
  case (2 m k v rest)
  show ?case
    unfolding set_sparsity_all.simps
  proof (rule "2.IH")
    show "\<forall>(k, v)\<in>set rest. \<not> ex k \<longrightarrow> base k \<subseteq> v" using "2.prems"(1) by auto
    show "\<forall>t. \<not> ex t \<longrightarrow> base t \<subseteq> mask_of (set_tensor_sparsity m k (PySet v)) t"
      using "2.prems" by auto
  qed
qed

lemma propagate_node_grows:
  assumes run: "propagate_node nd m = Inr (m', changed)"
    and t: "\<not> weight_operand nd t"
  shows "mask_of m t \<subseteq> mask_of m' t"
proof -
  let ?mi = "map (mask_of m) (node_input nd)" and ?mo = "map (mask_of m) (node_output nd)"
  from propagate_node_Inr[OF run] obtain ni no where
    up: "update_node_mask nd (map (\<lambda>s. Some (PySet s)) ?mi) (map (\<lambda>s. Some (PySet s)) ?mo) = Inr (ni, no)"
    and m': "m' = set_sparsity_all (set_sparsity_all m (zip (node_input nd) ni))
                  (zip (node_output nd) no)"
    by blast
  note g = update_grows[OF up]
  note out = g[THEN conjunct2, THEN conjunct2, THEN conjunct1]
  note inp = g[THEN conjunct2, THEN conjunct2, THEN conjunct2]
  have 1: "\<forall>(k, v)\<in>set (zip (node_input nd) ni). \<not> weight_operand nd k \<longrightarrow> mask_of m k \<subseteq> v"
  proof (clarify)
    fix k v x assume kv: "(k, v) \<in> set (zip (node_input nd) ni)" and nw: "\<not> weight_operand nd k" and x: "x \<in> mask_of m k"
    from kv obtain i where i: "i < length ni" "i < length (node_input nd)" "k = node_input nd ! i" "v = ni ! i"
      by (auto simp: in_set_zip)
    note inp[rule_format, OF i(1)]
    moreover from nw i have "\<not> (op_type nd \<in> set [''MatMul'', ''Conv''] \<and> i = 1)"
      unfolding weight_operand_def by auto
    ultimately have "?mi ! i \<subseteq> ni ! i" by argo
    with i x show "x \<in> v" by auto
  qed
  have 2: "\<forall>(k, v)\<in>set (zip (node_output nd) no). \<not> weight_operand nd k \<longrightarrow> mask_of m k \<subseteq> v"
  proof (clarify)
    fix k v x assume kv: "(k, v) \<in> set (zip (node_output nd) no)" and x: "x \<in> mask_of m k"
    from kv obtain i where i: "i < length no" "i < length (node_output nd)" "k = node_output nd ! i" "v = no ! i"
      by (auto simp: in_set_zip)
    note out[rule_format, OF i(1)]
    with i x show "x \<in> v" by auto
  qed
  have "\<forall>t. \<not> weight_operand nd t \<longrightarrow> mask_of m t \<subseteq> mask_of (set_sparsity_all m (zip (node_input nd) ni)) t"
    by (rule set_sparsity_all_grows[OF 1]) simp
  from set_sparsity_all_grows[OF 2 this] m' t show ?thesis by blast
qed

lemma EInt_image_subset: "EInt ` A \<union> S = EInt ` B \<Longrightarrow> A \<subseteq> B"
  by (auto simp: image_iff set_eq_iff) 

lemma propagate_node_weight:
  assumes run: "propagate_node nd m = Inr (m', changed)"
    and w: "weight_operand nd w" "w \<notin> set (node_output nd)"
  shows "\<exists>w_in w_out w_in' w_out'.
           decode_prefixed CHR ''i'' (mask_of m w) = Inr w_in \<and>
           decode_prefixed CHR ''o'' (mask_of m w) = Inr w_out \<and>
           decode_prefixed CHR ''i'' (mask_of m' w) = Inr w_in' \<and>
           decode_prefixed CHR ''o'' (mask_of m' w) = Inr w_out' \<and>
           (if is_depthwise nd then w_in' = {} \<and> w_in \<union> w_out \<subseteq> w_out'
            else w_in \<subseteq> w_in' \<and> w_out \<subseteq> w_out')"
proof -
  let ?mi = "map (mask_of m) (node_input nd)" and ?mo = "map (mask_of m) (node_output nd)"
  from w have op: "op_type nd \<in> set [''MatMul'', ''Conv'']" and l: "1 < length (node_input nd)"
    and wn: "w = node_input nd ! 1"
    by (simp_all add: weight_operand_def)
  from l obtain x rest_in where inp: "node_input nd = x # w # rest_in"
    using wn by (cases "node_input nd"; cases "tl (node_input nd)") auto
  from propagate_node_Inr[OF run] obtain ni no where
    up: "update_node_mask nd (map (\<lambda>s. Some (PySet s)) ?mi) (map (\<lambda>s. Some (PySet s)) ?mo) = Inr (ni, no)"
    and m': "m' = set_sparsity_all (set_sparsity_all m (zip (node_input nd) ni))
                  (zip (node_output nd) no)"
    by blast
  have ii: "decode_prefixed CHR ''i'' (prefixed CHR ''i'' N) = Inr N"
    and oo: "decode_prefixed CHR ''o'' (prefixed CHR ''o'' N) = Inr N"
    and io: "decode_prefixed CHR ''i'' (prefixed CHR ''o'' N) = Inr {}"
    and oi: "decode_prefixed CHR ''o'' (prefixed CHR ''i'' N) = Inr {}" for N
    by (simp_all add: decode_prefixed_same decode_prefixed_other)
  show ?thesis
  proof (cases "is_depthwise nd")
    case True
    from update_dotprod_depthwise[OF True up] inp obtain w_in w_out merged where
      d: "decode_prefixed CHR ''i'' (mask_of m w) = Inr w_in"
         "decode_prefixed CHR ''o'' (mask_of m w) = Inr w_out"
      and lo: "0 < length (node_output nd)"
      and mg: "EInt ` w_in \<union> mask_of m x \<union> (EInt ` w_out \<union> mask_of m (node_output nd ! 0)) = EInt ` merged"
      and r: "ni = [EInt ` merged, prefixed CHR ''o'' merged]" "no = [EInt ` merged]"
      by auto
    from lo obtain y rest_out where out: "node_output nd = y # rest_out"
      by (cases "node_output nd") auto
    from w(2) out have "w \<noteq> y" by auto
    with m' inp out r have new: "mask_of m' w = prefixed CHR ''o'' merged" by auto
    from mg have "EInt ` (w_in \<union> w_out) \<union> (mask_of m x \<union> mask_of m (node_output nd ! 0)) = EInt ` merged"
      by (simp add: image_Un Un_ac)
    then have "w_in \<union> w_out \<subseteq> merged" by (rule EInt_image_subset)
    with True d new io oo show ?thesis by auto
  next
    case False
    from update_dotprod_dense[OF op False up] inp obtain w_in w_out n_in n_out where
      d: "decode_prefixed CHR ''i'' (mask_of m w) = Inr w_in"
         "decode_prefixed CHR ''o'' (mask_of m w) = Inr w_out"
      and lo: "0 < length (node_output nd)"
      and mg: "EInt ` w_in \<union> mask_of m x = EInt ` n_in"
              "EInt ` w_out \<union> mask_of m (node_output nd ! 0) = EInt ` n_out"
      and r: "ni = [EInt ` n_in, prefixed CHR ''i'' n_in \<union> prefixed CHR ''o'' n_out]" "no = [EInt ` n_out]"
      by auto
    from lo obtain y rest_out where out: "node_output nd = y # rest_out"
      by (cases "node_output nd") auto
    from w(2) out have "w \<noteq> y" by auto
    with m' inp out r have new: "mask_of m' w = prefixed CHR ''i'' n_in \<union> prefixed CHR ''o'' n_out"
      by auto
    have di: "decode_prefixed CHR ''i'' (mask_of m' w) = Inr (n_in \<union> {})"
      unfolding new by (rule decode_prefixed_Un[OF ii io])
    have do: "decode_prefixed CHR ''o'' (mask_of m' w) = Inr ({} \<union> n_out)"
      unfolding new by (rule decode_prefixed_Un[OF oi oo])
    have "w_in \<subseteq> n_in" "w_out \<subseteq> n_out"
      by (rule EInt_image_subset[OF mg(1)], rule EInt_image_subset[OF mg(2)])
    with False d di do show ?thesis by auto
  qed
qed

lemma PropagateMasks_loop_grows:
  assumes "PropagateMasks_loop nds m b = Inr (m', b')"
    and "\<forall>nd\<in>set nds. \<not> weight_operand nd t"
  shows "mask_of m t \<subseteq> mask_of m' t"
  using assms
proof (induction nds arbitrary: m b)
  case Nil
  then show ?case by simp
next
  case (Cons nd nds)
  from Cons.prems(1) obtain m1 c1 where
    s: "propagate_node nd m = Inr (m1, c1)" and r: "PropagateMasks_loop nds m1 (b \<or> c1) = Inr (m', b')"
    by (auto split: sum.splits)
  from Cons.prems(2) have "\<not> weight_operand nd t" by simp
  from propagate_node_grows[OF s this] have "mask_of m t \<subseteq> mask_of m1 t" .
  moreover from Cons.IH[OF r] Cons.prems(2) have "mask_of m1 t \<subseteq> mask_of m' t" by simp
  ultimately show ?case by blast
qed

lemma PropagateMasks_apply_grows:
  assumes "PropagateMasks_apply m = Inr (m', need_rerun)"
    and "\<forall>nd\<in>set (graph_node m). \<not> weight_operand nd t"
  shows "mask_of m t \<subseteq> mask_of m' t"
  using assms unfolding PropagateMasks_apply_def by (rule PropagateMasks_loop_grows)

subsection \<open>Evaluating the examples\<close>

lemmas eval_simps =
  propagate_node_def update_node_mask_def ensure_masktype_is_set_def
  eltwise_ops_bidirectional_def eltwise_ops_bwdonly_def get_by_name_def list_index_def
  decode_prefixed_def encode_prefixed_def startswith_def replace_empty_def
  py_int_def strip_def is_space_def digits_value_def digit_val_def is_digit_def fmt_d_def
  dec_digits.simps digit_char_def get_tensor_sparsity_def set_tensor_sparsity_def
  mask_of_def mask_set_def Let_def

subsection \<open>Mask seeding\<close>

lemma ApplyMasks_entry_fields:
  assumes "ApplyMasks_entry key val m = Inr m'"
  shows "graph_node m' = graph_node m" "initializer m' = initializer m"
    "tensor_shape m' = tensor_shape m"
    "m' = set_tensor_sparsity m key (PySet (set val))"
  using assms
  by (auto simp: ApplyMasks_entry_def ebind_Inr_iff set_tensor_sparsity_def)

lemma t_fc_cnv_w_cong:
  assumes "graph_node m' = graph_node m" "initializer m' = initializer m"
  shows "t_fc_cnv_w_and_has_init m' key = t_fc_cnv_w_and_has_init m key"
  using assms by (simp add: t_fc_cnv_w_and_has_init_def find_consumer_def get_initializer_def)

lemma ApplyMasks_loop_fields:
  assumes "ApplyMasks_loop spec m = Inr m'"
  shows "graph_node m' = graph_node m \<and> initializer m' = initializer m \<and>
         tensor_shape m' = tensor_shape m"
  using assms
proof (induction spec arbitrary: m)
  case Nil
  then show ?case by simp
next
  case (Cons kv spec)
  obtain key val where kv: "kv = (key, val)" by (cases kv)
  from Cons.prems kv obtain m1 where
    e: "ApplyMasks_entry key val m = Inr m1" and r: "ApplyMasks_loop spec m1 = Inr m'"
    by (auto split: sum.splits)
  from Cons.IH[OF r] ApplyMasks_entry_fields[OF e] show ?case by simp
qed

lemma ApplyMasks_loop_append:
  "ApplyMasks_loop (pre @ rest) m =
     (case ApplyMasks_loop pre m of Inl e \<Rightarrow> Inl e | Inr m1 \<Rightarrow> ApplyMasks_loop rest m1)"
proof (induction pre arbitrary: m)
  case Nil
  then show ?case by simp
next
  case (Cons kv pre)
  obtain key val where kv: "kv = (key, val)" by (cases kv)
  show ?case using Cons.IH by (simp add: kv split: sum.splits)
qed

lemma weight_mask_check_cases:
  "weight_mask_check val =
     (case val of [] \<Rightarrow> Inl IndexError
      | v # _ \<Rightarrow> if prefixed_str v then Inr ()
                 else if \<not> is_str v then Inl (AssertionError ''Weight masks must be strings'')
                 else Inl (AssertionError ''Weight masks must be formatted iX or oX''))"
  by (auto simp: weight_mask_check_def prefixed_str_def split: list.splits)

subsection \<open>Removal: what one tensor's rewriting changes\<close>

lemma rmtc_scalar: "scalar_like t \<Longrightarrow> remove_masked_tensor_channels t s axis = Inr t"
  by (simp add: remove_masked_tensor_channels_def scalar_like_def)

lemma set_node_attribute_fields [simp]:
  "initializer (set_node_attribute m idx k v) = initializer m"
  "tensor_shape (set_node_attribute m idx k v) = tensor_shape m"
  "tensor_sparsity (set_node_attribute m idx k v) = tensor_sparsity m"
  "length (graph_node (set_node_attribute m idx k v)) = length (graph_node m)"
  by (simp_all add: set_node_attribute_def)

lemma set_node_attribute_io [simp]:
  "node_input (graph_node (set_node_attribute m idx k v) ! i) = node_input (graph_node m ! i)"
  "node_output (graph_node (set_node_attribute m idx k v) ! i) = node_output (graph_node m ! i)"
  "op_type (graph_node (set_node_attribute m idx k v) ! i) = op_type (graph_node m ! i)"
proof -
  have "graph_node (set_node_attribute m idx k v) ! i =
          (if i = idx \<and> idx < length (graph_node m)
           then (graph_node m ! idx)\<lparr>attribute := set_attribute (attribute (graph_node m ! idx)) k v\<rparr>
           else graph_node m ! i)"
    by (cases "idx < length (graph_node m)")
      (auto simp: set_node_attribute_def nth_list_update list_update_beyond)
  then show
    "node_input (graph_node (set_node_attribute m idx k v) ! i) = node_input (graph_node m ! i)"
    "node_output (graph_node (set_node_attribute m idx k v) ! i) = node_output (graph_node m ! i)"
    "op_type (graph_node (set_node_attribute m idx k v) ! i) = op_type (graph_node m ! i)"
    by simp_all
qed

lemma rewrite_tensor_shape:
  assumes "rewrite_tensor idx k s m = Inr m'"
  shows "(\<exists>shp. get_initializer m k = None \<and> m' = set_tensor_shape m k shp) \<or>
         (\<exists>t t'. get_initializer m k = Some t \<and>
            (m' = set_initializer m k t' \<or>
             (\<exists>n. m' = set_initializer (set_node_attribute m idx ''group'' n) k t')))"
proof (cases "get_initializer m k")
  case None
  with assms show ?thesis
    by (auto simp: rewrite_tensor_def ebind_Inr_iff)
next
  case (Some t)
  let ?nd = "graph_node m ! idx"
  consider (mm) "op_type ?nd = ''MatMul''" | (cv) "op_type ?nd \<noteq> ''MatMul''" "op_type ?nd = ''Conv''"
    | (pl) "op_type ?nd \<noteq> ''MatMul''" "op_type ?nd \<noteq> ''Conv''"
    by blast
  then show ?thesis
  proof cases
    case mm
    with assms Some show ?thesis
      by (auto simp: rewrite_tensor_def ebind_Inr_iff)
  next
    case cv
    with assms Some show ?thesis
      by (auto simp: rewrite_tensor_def ebind_Inr_iff split: if_splits)
  next
    case pl
    with assms Some show ?thesis
      by (auto simp: rewrite_tensor_def ebind_Inr_iff Let_def)
  qed
qed

lemma same_io_refl [simp]: "same_io m m"
  by (simp add: same_io_def)

lemma same_io_trans:
  assumes "same_io m m1" and "same_io m1 m2"
  shows "same_io m m2"
proof -
  from assms(1) have a: "length (graph_node m1) = length (graph_node m)"
    "\<And>i. node_input (graph_node m1 ! i) = node_input (graph_node m ! i)"
    "\<And>i. node_output (graph_node m1 ! i) = node_output (graph_node m ! i)"
    "\<And>i. op_type (graph_node m1 ! i) = op_type (graph_node m ! i)"
    unfolding same_io_def by blast+
  from assms(2) have b: "length (graph_node m2) = length (graph_node m1)"
    "\<And>i. node_input (graph_node m2 ! i) = node_input (graph_node m1 ! i)"
    "\<And>i. node_output (graph_node m2 ! i) = node_output (graph_node m1 ! i)"
    "\<And>i. op_type (graph_node m2 ! i) = op_type (graph_node m1 ! i)"
    unfolding same_io_def by blast+
  show ?thesis unfolding same_io_def by (simp only: a b simp_thms)
qed

lemma same_io_updates [simp]:
  "same_io m (set_initializer m k t)" "same_io m (set_tensor_shape m k shp)"
  "same_io m (set_tensor_sparsity m k v)"
  "same_io m (set_initializer (set_node_attribute m idx a n) k t)"
  by (simp_all add: same_io_def set_initializer_def set_tensor_shape_def set_tensor_sparsity_def)

lemma rewrite_tensor_frame:
  assumes "rewrite_tensor idx k s m = Inr m'"
  shows "tensor_sparsity m' = tensor_sparsity m"
    and "\<forall>k'. k' \<noteq> k \<longrightarrow> initializer m' k' = initializer m k' \<and> tensor_shape m' k' = tensor_shape m k'"
    and "same_io m m'"
proof -
  from rewrite_tensor_shape[OF assms] consider
    (a) shp where "m' = set_tensor_shape m k shp"
    | (b) t' where "m' = set_initializer m k t'"
    | (c) t' n where "m' = set_initializer (set_node_attribute m idx ''group'' n) k t'"
    by blast
  then show "tensor_sparsity m' = tensor_sparsity m"
    by cases (simp_all add: set_initializer_def set_tensor_shape_def)
  from \<open>rewrite_tensor idx k s m = Inr m'\<close>[THEN rewrite_tensor_shape] consider
    (a) shp where "m' = set_tensor_shape m k shp"
    | (b) t' where "m' = set_initializer m k t'"
    | (c) t' n where "m' = set_initializer (set_node_attribute m idx ''group'' n) k t'"
    by blast
  then show "\<forall>k'. k' \<noteq> k \<longrightarrow> initializer m' k' = initializer m k' \<and> tensor_shape m' k' = tensor_shape m k'"
    by cases (simp_all add: set_initializer_def set_tensor_shape_def)
  from \<open>rewrite_tensor idx k s m = Inr m'\<close>[THEN rewrite_tensor_shape] consider
    (a) shp where "m' = set_tensor_shape m k shp"
    | (b) t' where "m' = set_initializer m k t'"
    | (c) t' n where "m' = set_initializer (set_node_attribute m idx ''group'' n) k t'"
    by blast
  then show "same_io m m'"
    by cases simp_all
qed

lemma remove_tensor_skip:
  "\<not> is_set_mask (get_tensor_sparsity m k) \<Longrightarrow> remove_tensor idx k m = Inr (m, False)"
  by (auto simp: remove_tensor_def is_set_mask_def split: option.splits pyval.splits)

lemma remove_tensor_Inr:
  assumes "remove_tensor idx k m = Inr (m', touched)"
  shows "touched = is_set_mask (get_tensor_sparsity m k)"
    and "tensor_sparsity m' = (if touched then (tensor_sparsity m)(k \<mapsto> PyDict) else tensor_sparsity m)"
    and "\<forall>k'. k' \<noteq> k \<longrightarrow> initializer m' k' = initializer m k' \<and> tensor_shape m' k' = tensor_shape m k'"
    and "same_io m m'"
    and "\<not> touched \<longrightarrow> m' = m"
proof -
  show "touched = is_set_mask (get_tensor_sparsity m k)"
    using assms
    by (auto simp: remove_tensor_def is_set_mask_def ebind_Inr_iff split: option.splits pyval.splits)
  show "\<not> touched \<longrightarrow> m' = m"
    using assms
    by (auto simp: remove_tensor_def ebind_Inr_iff split: option.splits pyval.splits)
  show "tensor_sparsity m' = (if touched then (tensor_sparsity m)(k \<mapsto> PyDict) else tensor_sparsity m)"
    using assms
    by (auto simp: remove_tensor_def ebind_Inr_iff set_tensor_sparsity_def
        dest: rewrite_tensor_frame(1) split: option.splits pyval.splits)
  show "\<forall>k'. k' \<noteq> k \<longrightarrow> initializer m' k' = initializer m k' \<and> tensor_shape m' k' = tensor_shape m k'"
    using assms
    by (auto simp: remove_tensor_def ebind_Inr_iff set_tensor_sparsity_def
        dest: rewrite_tensor_frame(2) split: option.splits pyval.splits)
  show "same_io m m'"
    using assms
    by (auto simp: remove_tensor_def ebind_Inr_iff same_io_def set_tensor_sparsity_def
        dest!: rewrite_tensor_frame(3) split: option.splits pyval.splits)
qed

lemma rewrite_tensor_scalar:
  assumes run: "rewrite_tensor idx k s m = Inr m'"
    and init: "get_initializer m k = Some t" and sc: "scalar_like t"
  shows "initializer m' k = Some t \<and> tensor_shape m' k = tensor_shape m k"
proof -
  let ?nd = "graph_node m ! idx"
  consider (mm) "op_type ?nd = ''MatMul''" | (cv) "op_type ?nd \<noteq> ''MatMul''" "op_type ?nd = ''Conv''"
    | (pl) "op_type ?nd \<noteq> ''MatMul''" "op_type ?nd \<noteq> ''Conv''"
    by blast
  then show ?thesis
  proof cases
    case mm
    with run init sc show ?thesis
      by (auto simp: rewrite_tensor_def ebind_Inr_iff rmtc_scalar set_initializer_def)
  next
    case cv
    with run init sc show ?thesis
      by (auto simp: rewrite_tensor_def ebind_Inr_iff rmtc_scalar set_initializer_def
          split: if_splits)
  next
    case pl
    with run init sc show ?thesis
      by (auto simp: rewrite_tensor_def ebind_Inr_iff rmtc_scalar set_initializer_def Let_def)
  qed
qed

lemma remove_tensor_plain_scalar:
  assumes init: "get_initializer m k = Some t" and sc: "scalar_like t"
    and msk: "get_tensor_sparsity m k = Some (PySet s)"
    and pl: "op_type (graph_node m ! idx) \<notin> set [''MatMul'', ''Conv'']"
  shows "remove_tensor idx k m = Inr (set_tensor_sparsity (set_initializer m k t) k PyDict, True)"
  using assms
  by (simp add: remove_tensor_def rewrite_tensor_def rmtc_scalar Let_def)

lemma remove_tensor_scalar:
  assumes run: "remove_tensor idx k m = Inr (m', touched)"
    and init: "get_initializer m k0 = Some t" and sc: "scalar_like t"
  shows "initializer m' k0 = Some t \<and> tensor_shape m' k0 = tensor_shape m k0"
proof (cases "k0 = k")
  case False
  with remove_tensor_Inr(3)[OF run] init show ?thesis by (simp add: get_initializer_def)
next
  case True
  show ?thesis
  proof (cases touched)
    case False
    with remove_tensor_Inr(5)[OF run] init show ?thesis by (simp add: get_initializer_def)
  next
    case t: True
    with run obtain s m1 where
      "rewrite_tensor idx k s m = Inr m1" "m' = set_tensor_sparsity m1 k PyDict"
      by (auto simp: remove_tensor_def ebind_Inr_iff split: option.splits pyval.splits)
    with rewrite_tensor_scalar[of idx k s m m1 t] init sc True show ?thesis
      by (simp add: set_tensor_sparsity_def)
  qed
qed

subsection \<open>Removal: the effect of a sweep\<close>

lemma sweep_effect_refl: "sweep_effect {} m b m b"
  by (simp add: sweep_effect_def)

lemma remove_tensor_effect:
  assumes "remove_tensor idx k m = Inr (m', touched)"
  shows "sweep_effect {k} m b m' (b \<or> touched)"
  unfolding sweep_effect_def
proof (intro conjI)
  note r = remove_tensor_Inr[OF assms]
  show "(b \<or> touched) = (b \<or> (\<exists>k\<in>{k}. is_set_mask (tensor_sparsity m k)))"
    using r(1) by (simp add: get_tensor_sparsity_def)
  show "same_io m m'" by (rule r(4))
  show "\<forall>k'. tensor_sparsity m' k' =
            (if k' \<in> {k} \<and> is_set_mask (tensor_sparsity m k') then Some PyDict
             else tensor_sparsity m k')"
    using r(1,2) by (auto simp: get_tensor_sparsity_def)
  show "\<forall>k'. k' \<notin> {k} \<longrightarrow> initializer m' k' = initializer m k' \<and> tensor_shape m' k' = tensor_shape m k'"
    using r(3) by simp
  show "\<forall>k0 t. initializer m k0 = Some t \<and> scalar_like t \<longrightarrow>
             initializer m' k0 = Some t \<and> tensor_shape m' k0 = tensor_shape m k0"
    using remove_tensor_scalar[OF assms] by (simp add: get_initializer_def)
qed

lemma is_set_mask_PyDict [simp]: "\<not> is_set_mask (Some PyDict)"
  by (simp add: is_set_mask_def)

lemma sweep_effect_trans:
  assumes 1: "sweep_effect K1 m b m1 b1" and 2: "sweep_effect K2 m1 b1 m2 b2"
  shows "sweep_effect (K1 \<union> K2) m b m2 b2"
proof -
  from 1 have a: "b1 = (b \<or> (\<exists>k\<in>K1. is_set_mask (tensor_sparsity m k)))"
    and a2: "same_io m m1"
    and a3: "\<And>k. tensor_sparsity m1 k =
            (if k \<in> K1 \<and> is_set_mask (tensor_sparsity m k) then Some PyDict
             else tensor_sparsity m k)"
    and a4: "\<And>k. k \<notin> K1 \<Longrightarrow> initializer m1 k = initializer m k \<and> tensor_shape m1 k = tensor_shape m k"
    and a5: "\<And>k t. initializer m k = Some t \<Longrightarrow> scalar_like t \<Longrightarrow>
             initializer m1 k = Some t \<and> tensor_shape m1 k = tensor_shape m k"
    unfolding sweep_effect_def by blast+
  from 2 have c: "b2 = (b1 \<or> (\<exists>k\<in>K2. is_set_mask (tensor_sparsity m1 k)))"
    and c2: "same_io m1 m2"
    and c3: "\<And>k. tensor_sparsity m2 k =
            (if k \<in> K2 \<and> is_set_mask (tensor_sparsity m1 k) then Some PyDict
             else tensor_sparsity m1 k)"
    and c4: "\<And>k. k \<notin> K2 \<Longrightarrow> initializer m2 k = initializer m1 k \<and> tensor_shape m2 k = tensor_shape m1 k"
    and c5: "\<And>k t. initializer m1 k = Some t \<Longrightarrow> scalar_like t \<Longrightarrow>
             initializer m2 k = Some t \<and> tensor_shape m2 k = tensor_shape m1 k"
    unfolding sweep_effect_def by blast+
  have s: "is_set_mask (tensor_sparsity m1 k) = (is_set_mask (tensor_sparsity m k) \<and> k \<notin> K1)" for k
    by (auto simp: a3)
  show ?thesis
    unfolding sweep_effect_def
  proof (intro conjI)
    show "b2 = (b \<or> (\<exists>k\<in>K1 \<union> K2. is_set_mask (tensor_sparsity m k)))"
      unfolding c a s by blast
    show "same_io m m2" by (rule same_io_trans[OF a2 c2])
    show "\<forall>k. tensor_sparsity m2 k =
            (if k \<in> K1 \<union> K2 \<and> is_set_mask (tensor_sparsity m k) then Some PyDict
             else tensor_sparsity m k)"
      unfolding c3 s by (simp add: a3)
    show "\<forall>k. k \<notin> K1 \<union> K2 \<longrightarrow> initializer m2 k = initializer m k \<and> tensor_shape m2 k = tensor_shape m k"
      using a4 c4 by simp
    show "\<forall>k t. initializer m k = Some t \<and> scalar_like t \<longrightarrow>
             initializer m2 k = Some t \<and> tensor_shape m2 k = tensor_shape m k"
      using a5 c5 by metis
  qed
qed

lemma remove_ios_effect:
  assumes "remove_ios idx ks m b = Inr (m', b')"
  shows "sweep_effect (set ks) m b m' b'"
  using assms
proof (induction ks arbitrary: m b)
  case Nil
  then show ?case by (simp add: sweep_effect_refl)
next
  case (Cons k ks)
  from Cons.prems obtain m1 t1 where
    s: "remove_tensor idx k m = Inr (m1, t1)" and r: "remove_ios idx ks m1 (b \<or> t1) = Inr (m', b')"
    by (auto split: sum.splits)
  from sweep_effect_trans[OF remove_tensor_effect[OF s] Cons.IH[OF r]]
  show ?case by simp
qed

lemma same_io_node_io: "same_io m m' \<Longrightarrow> node_io m' idx = node_io m idx"
  by (simp add: same_io_def node_io_def)

lemma remove_nodes_effect:
  assumes "remove_nodes idxs m b = Inr (m', b')"
  shows "sweep_effect (\<Union>idx\<in>set idxs. set (node_io m idx)) m b m' b'"
  using assms
proof (induction idxs arbitrary: m b)
  case Nil
  then show ?case by (simp add: sweep_effect_refl)
next
  case (Cons idx idxs)
  from Cons.prems obtain m1 b1 where
    s: "remove_ios idx (node_io m idx) m b = Inr (m1, b1)"
    and r: "remove_nodes idxs m1 b1 = Inr (m', b')"
    by (auto simp: node_io_def split: sum.splits)
  note e1 = remove_ios_effect[OF s]
  then have "same_io m m1" by (simp add: sweep_effect_def)
  then have "(\<Union>i\<in>set idxs. set (node_io m1 i)) = (\<Union>i\<in>set idxs. set (node_io m i))"
    by (simp add: same_io_node_io)
  with Cons.IH[OF r] have "sweep_effect (\<Union>i\<in>set idxs. set (node_io m i)) m1 b1 m' b'" by simp
  from sweep_effect_trans[OF e1 this] show ?case by simp
qed

lemma referenced_node_io:
  "referenced m = (\<Union>idx\<in>set [0..<length (graph_node m)]. set (node_io m idx))"
proof -
  have "set (graph_node m) = (\<lambda>i. graph_node m ! i) ` set [0..<length (graph_node m)]"
    by (auto simp: in_set_conv_nth)
  then have "referenced m =
      (\<Union>nd\<in>(\<lambda>i. graph_node m ! i) ` set [0..<length (graph_node m)].
         set (node_input nd @ node_output nd))"
    by (simp only: referenced_def)
  then show ?thesis by (simp add: node_io_def)
qed

lemma RemoveMaskedChannels_effect:
  assumes "RemoveMaskedChannels_apply m = Inr (m', need_rerun)"
  shows "sweep_effect (referenced m) m False m' need_rerun"
  using remove_nodes_effect[OF assms[unfolded RemoveMaskedChannels_apply_def]]
  by (simp add: referenced_node_io)

lemma remove_ios_noop:
  assumes "\<forall>k\<in>set ks. \<not> is_set_mask (get_tensor_sparsity m k)"
  shows "remove_ios idx ks m b = Inr (m, b)"
  using assms by (induction ks) (simp_all add: remove_tensor_skip)

lemma remove_nodes_noop:
  assumes "\<forall>idx\<in>set idxs. \<forall>k\<in>set (node_io m idx). \<not> is_set_mask (get_tensor_sparsity m k)"
  shows "remove_nodes idxs m b = Inr (m, b)"
  using assms
proof (induction idxs)
  case Nil
  then show ?case by simp
next
  case (Cons idx idxs)
  then have "remove_ios idx (node_io m idx) m b = Inr (m, b)"
    by (intro remove_ios_noop) simp
  with Cons show ?case by (simp add: node_io_def)
qed

lemma RemoveMaskedChannels_noop:
  assumes "\<forall>k\<in>referenced m. \<not> is_set_mask (get_tensor_sparsity m k)"
  shows "RemoveMaskedChannels_apply m = Inr (m, False)"
  unfolding RemoveMaskedChannels_apply_def
  using assms by (intro remove_nodes_noop) (simp add: referenced_node_io)

lemmas removal_eval_simps =
  RemoveMaskedChannels_apply_def remove_tensor_def rewrite_tensor_def
  remove_masked_tensor_channels_def remove_masked_tensor_channels_shape_def np_delete_def
  ndim_def get_initializer_def set_initializer_def get_tensor_shape_def set_tensor_shape_def
  get_tensor_sparsity_def set_tensor_sparsity_def set_node_attribute_def get_by_name_def
  list_index_def decode_prefixed_def startswith_def replace_empty_def
  py_int_def strip_def is_space_def digits_value_def digit_val_def is_digit_def Let_def

subsection \<open>The orchestrator\<close>

lemma transform_Inr_iff: "transform stage m = Inr m' \<longleftrightarrow> (\<exists>b. stage m = Inr (m', b))"
  by (auto simp: transform_def split: sum.splits)

lemma dyn_w_check_ok:
  assumes "\<forall>x\<in>set nds. 1 < length (node_input x)"
  shows "map_err (\<lambda>x. ebind (list_index (node_input x) 1) (\<lambda>w. Inr (x, get_initializer m w = None))) nds
     = Inr (map (\<lambda>x. (x, get_initializer m (node_input x ! 1) = None)) nds)"
  using assms by (induction nds) (simp_all add: list_index_def)

lemma dyn_w_check_Inr:
  assumes "map_err (\<lambda>x. ebind (list_index (node_input x) 1) (\<lambda>w. Inr (x, get_initializer m w = None))) nds
     = Inr flagged"
  shows "\<forall>x\<in>set nds. 1 < length (node_input x)"
  using assms
proof (induction nds arbitrary: flagged)
  case Nil
  then show ?case by simp
next
  case (Cons x nds)
  from Cons.prems obtain y ys where
    1: "ebind (list_index (node_input x) 1) (\<lambda>w. Inr (x, get_initializer m w = None)) = Inr y"
    and 2: "map_err (\<lambda>x. ebind (list_index (node_input x) 1) (\<lambda>w. Inr (x, get_initializer m w = None))) nds = Inr ys"
    by (auto split: sum.splits)
  from 1 have "1 < length (node_input x)"
    by (auto simp: ebind_Inr_iff list_index_Inr_iff)
  with Cons.IH[OF 2] show ?case by simp
qed

lemma filter_snd_flagged:
  "map fst (filter snd (map (\<lambda>x. (x, P x)) nds)) = filter P nds"
  by (induction nds) auto


lemma dyn_w_check_fail:
  assumes "\<not> (\<forall>x\<in>set nds. 1 < length (node_input x))"
  shows "\<exists>e. map_err (\<lambda>x. ebind (list_index (node_input x) 1)
            (\<lambda>w. Inr (x, get_initializer m w = None))) nds = Inl e"
proof (cases "map_err (\<lambda>x. ebind (list_index (node_input x) 1)
            (\<lambda>w. Inr (x, get_initializer m w = None))) nds")
  case (Inl e)
  then show ?thesis by blast
next
  case (Inr flagged)
  from dyn_w_check_Inr[OF this] assms show ?thesis by blast
qed

lemma PruneChannels_apply_ok:
  assumes "preconditions m"
  shows "PruneChannels_apply run spec m =
           ebind (run (ApplyMasks_apply spec) m) (\<lambda>m1.
           ebind (run PropagateMasks_apply m1) (\<lambda>m2.
           ebind (run RemoveMaskedChannels_apply m2) (\<lambda>m3.
             Inr (m3, False))))"
proof -
  let ?cv = "get_nodes_by_op_type m ''Conv''" and ?mm = "get_nodes_by_op_type m ''MatMul''"
  from assms have a: "filter (\<lambda>x. length (node_input x) = 3) ?cv = []"
    unfolding preconditions_def filter_empty_conv by blast
  from assms have b: "\<forall>x\<in>set (?cv @ ?mm). 1 < length (node_input x)"
    unfolding preconditions_def by blast
  from assms have c: "filter (\<lambda>x. get_initializer m (node_input x ! 1) = None) (?cv @ ?mm) = []"
    unfolding preconditions_def filter_empty_conv by blast
  note d = dyn_w_check_ok[OF b, of m]
  show ?thesis
    by (simp only: PruneChannels_apply_def Let_def a d ebind_Inr filter_snd_flagged c
        list.size less_irrefl if_False)
qed

lemma PruneChannels_apply_fail:
  assumes "\<not> preconditions m"
  shows "\<exists>e. PruneChannels_apply run spec m = Inl e"
proof -
  let ?cv = "get_nodes_by_op_type m ''Conv''" and ?mm = "get_nodes_by_op_type m ''MatMul''"
  consider (bias) "filter (\<lambda>x. length (node_input x) = 3) ?cv \<noteq> []"
    | (short) "filter (\<lambda>x. length (node_input x) = 3) ?cv = []"
        "\<not> (\<forall>x\<in>set (?cv @ ?mm). 1 < length (node_input x))"
    | (dyn) "filter (\<lambda>x. length (node_input x) = 3) ?cv = []"
        "\<forall>x\<in>set (?cv @ ?mm). 1 < length (node_input x)"
        "filter (\<lambda>x. get_initializer m (node_input x ! 1) = None) (?cv @ ?mm) \<noteq> []"
    using assms unfolding preconditions_def filter_empty_conv by blast
  then show ?thesis
  proof cases
    case bias
    then have "0 < length (filter (\<lambda>x. length (node_input x) = 3) ?cv)" by simp
    then show ?thesis
      by (simp only: PruneChannels_apply_def Let_def if_True) blast
  next
    case short
    from dyn_w_check_fail[OF short(2), of m] obtain e where
      "map_err (\<lambda>x. ebind (list_index (node_input x) 1)
            (\<lambda>w. Inr (x, get_initializer m w = None))) (?cv @ ?mm) = Inl e" by blast
    then show ?thesis
      by (simp only: PruneChannels_apply_def Let_def short(1) list.size less_irrefl if_False
          ebind_Inl) blast
  next
    case dyn
    note d = dyn_w_check_ok[OF dyn(2), of m]
    from dyn(3) have
      "0 < length (filter (\<lambda>x. get_initializer m (node_input x ! 1) = None) (?cv @ ?mm))"
      by simp
    then show ?thesis
      by (simp only: PruneChannels_apply_def Let_def dyn(1) list.size less_irrefl if_False
          d ebind_Inr filter_snd_flagged if_True) blast
  qed
qed

lemmas seeding_eval_simps =
  ApplyMasks_apply_def ApplyMasks_entry_def t_fc_cnv_w_and_has_init_def find_consumer_def
  weight_mask_check_def

section \<open>The claims\<close>

subsection \<open>C1: propagation and the growth of masks\<close>

text \<open>
  As stated, C1 asks that the mask written back to every input and output tensor of a
  processed node, the weight operand included, is a superset of the mask read. For the
  depthwise convolution of \<open>dw_model\<close> the weight mask \<^verbatim>\<open>{"i3"}\<close> is rewritten to
  \<^verbatim>\<open>{"o3"}\<close>, which is no superset.
\<close>

theorem propagation_superset_counterexample:
  "case propagate_node dw_conv dw_model of
     Inl e \<Rightarrow> False
   | Inr (m', changed) \<Rightarrow>
       mask_of dw_model ''w'' = {EStr ''i3''} \<and> mask_of m' ''w'' = {EStr ''o3''} \<and>
       \<not> mask_of dw_model ''w'' \<subseteq> mask_of m' ''w''"
  by (simp add: dw_conv_def dw_model_def eval_simps)

text \<open>
  C1 (amended): a propagation step that returns only grows the mask of every tensor that
  is not the weight operand of the processed node: the mask after the step is a superset
  of the mask before it. The mask of the weight operand is re-encoded from the channel
  sets decoded from it, and it is these that grow: for a dense MatMul or Conv the new
  input-side set contains the old one and the new output-side set contains the old one;
  for a depthwise Conv the new input-side set is empty and the new output-side set contains
  both old sets.
\<close>

theorem propagation_grows_masks:
  assumes run: "propagate_node nd m = Inr (m', changed)"
  shows "(\<forall>t. \<not> weight_operand nd t \<longrightarrow> mask_of m t \<subseteq> mask_of m' t) \<and>
         (\<forall>w. weight_operand nd w \<and> w \<notin> set (node_output nd) \<longrightarrow>
            (\<exists>w_in w_out w_in' w_out'.
               decode_prefixed CHR ''i'' (mask_of m w) = Inr w_in \<and>
               decode_prefixed CHR ''o'' (mask_of m w) = Inr w_out \<and>
               decode_prefixed CHR ''i'' (mask_of m' w) = Inr w_in' \<and>
               decode_prefixed CHR ''o'' (mask_of m' w) = Inr w_out' \<and>
               (if is_depthwise nd then w_in' = {} \<and> w_in \<union> w_out \<subseteq> w_out'
                else w_in \<subseteq> w_in' \<and> w_out \<subseteq> w_out')))"
  using propagate_node_grows[OF run] propagate_node_weight[OF run] by blast

theorem propagation_grows_masks_witness:
  "\<exists>m' changed. propagate_node dw_conv dw_model = Inr (m', changed) \<and>
     \<not> weight_operand dw_conv ''x'' \<and> mask_of dw_model ''x'' \<subseteq> mask_of m' ''x'' \<and>
     weight_operand dw_conv ''w'' \<and> ''w'' \<notin> set (node_output dw_conv) \<and>
     (\<exists>w_in w_out w_in' w_out'.
        decode_prefixed CHR ''i'' (mask_of dw_model ''w'') = Inr w_in \<and>
        decode_prefixed CHR ''o'' (mask_of dw_model ''w'') = Inr w_out \<and>
        decode_prefixed CHR ''i'' (mask_of m' ''w'') = Inr w_in' \<and>
        decode_prefixed CHR ''o'' (mask_of m' ''w'') = Inr w_out' \<and>
        w_in' = {} \<and> w_in \<union> w_out \<subseteq> w_out')"
proof -
  obtain m' changed where run: "propagate_node dw_conv dw_model = Inr (m', changed)"
    by (simp add: dw_conv_def dw_model_def eval_simps)
  have x: "\<not> weight_operand dw_conv ''x''" and w: "weight_operand dw_conv ''w''"
    and o: "''w'' \<notin> set (node_output dw_conv)" and dw: "is_depthwise dw_conv"
    by (simp_all add: weight_operand_def is_depthwise_def get_by_name_def dw_conv_def)
  from propagation_grows_masks[OF run] x w o dw run show ?thesis
    by (auto simp del: set_simps)
qed

subsection \<open>C2: the sanity check of mask seeding\<close>

text \<open>
  As stated, C2 asks that a malformed weight mask makes seeding fail before any tensor's
  mask has been installed. The loop of \<^verbatim>\<open>ApplyMasks.apply\<close> checks and installs item by
  item: for the spec \<open>plain_weight_spec\<close> the mask of \<open>x\<close> is installed when the plain
  integer mask of the weight \<open>w\<close> fails the assertion, whose message does not name the
  tensor.
\<close>

theorem seeding_fail_fast_counterexample:
  "case ApplyMasks_loop plain_weight_spec conv_model of
     Inr m' \<Rightarrow> False
   | Inl (e, m') \<Rightarrow>
       e = AssertionError ''Weight masks must be strings'' \<and>
       get_tensor_sparsity conv_model ''x'' = None \<and>
       get_tensor_sparsity m' ''x'' = Some (PySet {EInt 1})"
  by (simp add: plain_weight_spec_def conv_model_def conv_node_def ApplyMasks_entry_def
      t_fc_cnv_w_and_has_init_def find_consumer_def get_initializer_def weight_mask_check_def
      list_index_def get_tensor_sparsity_def set_tensor_sparsity_def)

text \<open>
  C2 (amended): let the items before \<open>(key, val)\<close> have been installed, giving the model
  \<open>m1\<close>, and let \<open>key\<close> be the initializer-bearing second input of its first consumer, a
  Conv or MatMul. Seeding looks at the first element of the mask in iteration order only.
  If that element is not a string beginning with \<^verbatim>\<open>i\<close> or \<^verbatim>\<open>o\<close>, seeding fails with an
  AssertionError of a fixed message before this item's mask is installed, the model being
  \<open>m1\<close> with the masks of the earlier items in place; an empty mask fails with IndexError
  in the same way. If the first element is such a string, the mask is installed whatever
  its other elements are, and seeding goes on with the remaining items.
\<close>

theorem seeding_weight_check:
  assumes pre: "ApplyMasks_loop pre m = Inr m1"
    and w: "t_fc_cnv_w_and_has_init m key = Inr True"
  shows "(val = [] \<longrightarrow> ApplyMasks_loop (pre @ (key, val) # post) m = Inl (IndexError, m1)) \<and>
         (val \<noteq> [] \<and> \<not> prefixed_str (hd val) \<longrightarrow>
            ApplyMasks_loop (pre @ (key, val) # post) m =
              Inl (AssertionError (if is_str (hd val)
                                   then ''Weight masks must be formatted iX or oX''
                                   else ''Weight masks must be strings''), m1)) \<and>
         (val \<noteq> [] \<and> prefixed_str (hd val) \<longrightarrow>
            ApplyMasks_loop (pre @ (key, val) # post) m =
              ApplyMasks_loop post (set_tensor_sparsity m1 key (PySet (set val))))"
proof -
  from ApplyMasks_loop_fields[OF pre] have "t_fc_cnv_w_and_has_init m1 key = Inr True"
    using w t_fc_cnv_w_cong[of m1 m key] by simp
  then have e: "ApplyMasks_entry key v m1 =
      ebind (weight_mask_check v) (\<lambda>_. Inr (set_tensor_sparsity m1 key (PySet (set v))))" for v
    by (simp add: ApplyMasks_entry_def)
  show ?thesis
    by (cases val) (simp_all add: ApplyMasks_loop_append pre e weight_mask_check_cases)
qed

theorem seeding_weight_check_witness:
  "ApplyMasks_loop [(''x'', [EInt 1])] conv_model =
     Inr (set_tensor_sparsity conv_model ''x'' (PySet {EInt 1})) \<and>
   t_fc_cnv_w_and_has_init conv_model ''w'' = Inr True \<and>
   ApplyMasks_loop ([(''x'', [EInt 1])] @ (''w'', [EInt 1, EInt 2]) # []) conv_model =
     Inl (AssertionError ''Weight masks must be strings'',
          set_tensor_sparsity conv_model ''x'' (PySet {EInt 1})) \<and>
   ApplyMasks_loop ([(''x'', [EInt 1])] @ (''w'', [EStr ''o1'', EInt 2]) # []) conv_model =
     Inr (set_tensor_sparsity (set_tensor_sparsity conv_model ''x'' (PySet {EInt 1})) ''w''
            (PySet {EStr ''o1'', EInt 2}))"
proof -
  have pre: "ApplyMasks_loop [(''x'', [EInt 1])] conv_model =
     Inr (set_tensor_sparsity conv_model ''x'' (PySet {EInt 1}))"
    by (simp add: conv_model_def conv_node_def ApplyMasks_entry_def
      t_fc_cnv_w_and_has_init_def find_consumer_def get_initializer_def list_index_def)
  have w: "t_fc_cnv_w_and_has_init conv_model ''w'' = Inr True"
    by (simp add: conv_model_def conv_node_def t_fc_cnv_w_and_has_init_def find_consumer_def
        get_initializer_def list_index_def)
  have a: "\<not> prefixed_str (hd [EInt 1, EInt 2])" "prefixed_str (hd [EStr ''o1'', EInt 2])"
    by (simp_all add: prefixed_str_def startswith_def)
  from seeding_weight_check[OF pre w, of "[EInt 1, EInt 2]" "[]"]
    seeding_weight_check[OF pre w, of "[EStr ''o1'', EInt 2]" "[]"] a pre w
  show ?thesis by simp
qed

subsection \<open>C3: depthwise coupling\<close>

text \<open>
  C3: for a Conv node whose group attribute exceeds 1, with data input \<open>x\<close>, weight \<open>w\<close>
  and output \<open>y\<close> (three different tensors), after a propagation step that returns the
  mask of \<open>x\<close>, the mask of \<open>y\<close> and the output-side set decoded from the mask of \<open>w\<close> are
  the same set \<open>merged\<close>, the union of the masks read for \<open>x\<close> and \<open>y\<close> and of both sets
  decoded from the old weight mask; the input-side set decoded from the new weight mask is
  empty, the weight mask holding the \<^verbatim>\<open>o\<close>-prefixed entries only.
\<close>

theorem depthwise_coupling:
  assumes conv: "op_type nd = ''Conv''"
    and grp: "get_by_name (attribute nd) ''group'' = Some g" "g > 1"
    and io: "node_input nd = x # w # rest_in" "node_output nd = y # rest_out"
    and dist: "x \<noteq> w" "y \<noteq> x" "y \<noteq> w"
    and run: "propagate_node nd m = Inr (m', changed)"
  shows "\<exists>w_in w_out merged.
           decode_prefixed CHR ''i'' (mask_of m w) = Inr w_in \<and>
           decode_prefixed CHR ''o'' (mask_of m w) = Inr w_out \<and>
           EInt ` merged = (EInt ` w_in \<union> mask_of m x) \<union> (EInt ` w_out \<union> mask_of m y) \<and>
           mask_of m' x = EInt ` merged \<and>
           mask_of m' y = EInt ` merged \<and>
           mask_of m' w = prefixed CHR ''o'' merged \<and>
           decode_prefixed CHR ''o'' (mask_of m' w) = Inr merged \<and>
           decode_prefixed CHR ''i'' (mask_of m' w) = Inr {}"
proof -
  from conv grp have dw: "is_depthwise nd" by (simp add: is_depthwise_def)
  from propagate_node_Inr[OF run] obtain ni no where
    up: "update_node_mask nd (map (\<lambda>s. Some (PySet s)) (map (mask_of m) (node_input nd)))
              (map (\<lambda>s. Some (PySet s)) (map (mask_of m) (node_output nd))) = Inr (ni, no)"
    and m': "m' = set_sparsity_all (set_sparsity_all m (zip (node_input nd) ni))
                  (zip (node_output nd) no)"
    by blast
  from update_dotprod_depthwise[OF dw up] io obtain w_in w_out merged where
    d: "decode_prefixed CHR ''i'' (mask_of m w) = Inr w_in"
       "decode_prefixed CHR ''o'' (mask_of m w) = Inr w_out"
    and mg: "EInt ` w_in \<union> mask_of m x \<union> (EInt ` w_out \<union> mask_of m y) = EInt ` merged"
    and ni: "ni = [EInt ` merged, prefixed CHR ''o'' merged]"
    and no: "no = [EInt ` merged]"
    by auto
  from m' io ni no dist have
    "mask_of m' x = EInt ` merged" "mask_of m' y = EInt ` merged"
    "mask_of m' w = prefixed CHR ''o'' merged"
    by auto
  moreover have "decode_prefixed CHR ''o'' (prefixed CHR ''o'' merged) = Inr merged"
    by (rule decode_prefixed_same) simp
  moreover have "decode_prefixed CHR ''i'' (prefixed CHR ''o'' merged) = Inr {}"
    by (rule decode_prefixed_other) simp
  ultimately show ?thesis using d mg
    by (intro exI[of _ w_in] exI[of _ w_out] exI[of _ merged]) auto
qed

theorem depthwise_coupling_witness:
  "\<exists>m' changed. propagate_node dw_conv dw_model = Inr (m', changed) \<and>
     (\<exists>merged. mask_of m' ''x'' = EInt ` merged \<and> mask_of m' ''y'' = EInt ` merged \<and>
        mask_of m' ''w'' = prefixed CHR ''o'' merged \<and>
        decode_prefixed CHR ''o'' (mask_of m' ''w'') = Inr merged \<and>
        decode_prefixed CHR ''i'' (mask_of m' ''w'') = Inr {})"
proof -
  obtain m' changed where run: "propagate_node dw_conv dw_model = Inr (m', changed)"
    by (simp add: dw_conv_def dw_model_def eval_simps)
  have h: "op_type dw_conv = ''Conv''" "get_by_name (attribute dw_conv) ''group'' = Some 4"
    "(4::int) > 1" "node_input dw_conv = ''x'' # ''w'' # []" "node_output dw_conv = ''y'' # []"
    "''x'' \<noteq> ''w''" "''y'' \<noteq> ''x''" "''y'' \<noteq> ''w''"
    by (simp_all add: get_by_name_def dw_conv_def)
  from depthwise_coupling[OF h run] obtain merged where
    f: "mask_of m' ''x'' = EInt ` merged" "mask_of m' ''y'' = EInt ` merged"
       "mask_of m' ''w'' = prefixed CHR ''o'' merged"
       "decode_prefixed CHR ''o'' (mask_of m' ''w'') = Inr merged"
       "decode_prefixed CHR ''i'' (mask_of m' ''w'') = Inr {}"
    by (elim exE conjE)
  show ?thesis
    by (intro exI[of _ m'] exI[of _ changed] exI[of _ merged] conjI run f)
qed

subsection \<open>C4: dot-product decoupling\<close>

text \<open>
  C4: for a MatMul, or a Conv that is not depthwise, with data input \<open>x\<close>, weight \<open>w\<close> and
  output \<open>y\<close> (three different tensors), a propagation step that returns sets the mask of
  \<open>x\<close> to the input-side set of the weight mask united with the mask read for \<open>x\<close>, and
  the mask of \<open>y\<close> to the output-side set of the weight mask united with the mask read
  for \<open>y\<close>. The input-side set is the set of the integers that the \<^verbatim>\<open>i\<close>-prefixed
  strings of the weight mask read as, once the \<^verbatim>\<open>i\<close> is removed, and likewise the
  output-side set with \<^verbatim>\<open>o\<close>. The new weight mask is exactly the strings \<^verbatim>\<open>"i%d" % n\<close>
  for the elements of the new mask of \<open>x\<close> together with the strings \<^verbatim>\<open>"o%d" % n\<close> for
  the elements of the new mask of \<open>y\<close>; decoding it gives back these two masks, the
  input side and the output side apart. An index present on the output side only does not
  enter the mask of \<open>x\<close>, and one present on the input side only does not enter the mask
  of \<open>y\<close>.
\<close>

theorem dotprod_decoupling:
  assumes op: "op_type nd \<in> set [''MatMul'', ''Conv'']"
    and dw: "\<not> is_depthwise nd"
    and io: "node_input nd = x # w # rest_in" "node_output nd = y # rest_out"
    and dist: "x \<noteq> w" "y \<noteq> x" "y \<noteq> w"
    and run: "propagate_node nd m = Inr (m', changed)"
  shows "\<exists>w_in w_out n_in n_out.
           w_in = {n. \<exists>s. EStr s \<in> mask_of m w \<and> startswith s CHR ''i'' \<and>
                        py_int (replace_empty s CHR ''i'') = Inr n} \<and>
           w_out = {n. \<exists>s. EStr s \<in> mask_of m w \<and> startswith s CHR ''o'' \<and>
                         py_int (replace_empty s CHR ''o'') = Inr n} \<and>
           decode_prefixed CHR ''i'' (mask_of m w) = Inr w_in \<and>
           decode_prefixed CHR ''o'' (mask_of m w) = Inr w_out \<and>
           mask_of m' x = EInt ` w_in \<union> mask_of m x \<and>
           mask_of m' y = EInt ` w_out \<union> mask_of m y \<and>
           mask_of m' w = (\<lambda>e. EStr (CHR ''i'' # fmt_d (the_int e))) ` mask_of m' x \<union>
                          (\<lambda>e. EStr (CHR ''o'' # fmt_d (the_int e))) ` mask_of m' y \<and>
           mask_of m' x = EInt ` n_in \<and> mask_of m' y = EInt ` n_out \<and>
           mask_of m' w = prefixed CHR ''i'' n_in \<union> prefixed CHR ''o'' n_out \<and>
           decode_prefixed CHR ''i'' (mask_of m' w) = Inr n_in \<and>
           decode_prefixed CHR ''o'' (mask_of m' w) = Inr n_out \<and>
           ((mask_of m y \<union> EInt ` w_out) - (mask_of m x \<union> EInt ` w_in)) \<inter> mask_of m' x = {} \<and>
           ((mask_of m x \<union> EInt ` w_in) - (mask_of m y \<union> EInt ` w_out)) \<inter> mask_of m' y = {}"
proof -
  from propagate_node_Inr[OF run] obtain ni no where
    up: "update_node_mask nd (map (\<lambda>s. Some (PySet s)) (map (mask_of m) (node_input nd)))
              (map (\<lambda>s. Some (PySet s)) (map (mask_of m) (node_output nd))) = Inr (ni, no)"
    and m': "m' = set_sparsity_all (set_sparsity_all m (zip (node_input nd) ni))
                  (zip (node_output nd) no)"
    by blast
  from update_dotprod_dense[OF op dw up] io obtain w_in w_out n_in n_out where
    d: "decode_prefixed CHR ''i'' (mask_of m w) = Inr w_in"
       "decode_prefixed CHR ''o'' (mask_of m w) = Inr w_out"
    and mg: "EInt ` w_in \<union> mask_of m x = EInt ` n_in" "EInt ` w_out \<union> mask_of m y = EInt ` n_out"
    and ni: "ni = [EInt ` n_in, prefixed CHR ''i'' n_in \<union> prefixed CHR ''o'' n_out]"
    and no: "no = [EInt ` n_out]"
    by auto
  note c = decode_prefixed_Inr_set[OF d(1)] decode_prefixed_Inr_set[OF d(2)]
  from m' io ni no dist have new:
    "mask_of m' x = EInt ` n_in" "mask_of m' y = EInt ` n_out"
    "mask_of m' w = prefixed CHR ''i'' n_in \<union> prefixed CHR ''o'' n_out"
    by auto
  from new mg have eqs:
    "mask_of m' x = EInt ` w_in \<union> mask_of m x" "mask_of m' y = EInt ` w_out \<union> mask_of m y"
    by simp_all
  have enc: "mask_of m' w = (\<lambda>e. EStr (CHR ''i'' # fmt_d (the_int e))) ` mask_of m' x \<union>
                          (\<lambda>e. EStr (CHR ''o'' # fmt_d (the_int e))) ` mask_of m' y"
    unfolding new by (simp add: prefixed_def image_image)
  have ii: "decode_prefixed CHR ''i'' (prefixed CHR ''i'' N) = Inr N"
    and oo: "decode_prefixed CHR ''o'' (prefixed CHR ''o'' N) = Inr N"
    and io': "decode_prefixed CHR ''i'' (prefixed CHR ''o'' N) = Inr {}"
    and oi: "decode_prefixed CHR ''o'' (prefixed CHR ''i'' N) = Inr {}" for N
    by (simp_all add: decode_prefixed_same decode_prefixed_other)
  have rt: "decode_prefixed CHR ''i'' (mask_of m' w) = Inr n_in"
    "decode_prefixed CHR ''o'' (mask_of m' w) = Inr n_out"
    unfolding new using decode_prefixed_Un[OF ii io', of n_in n_out]
      decode_prefixed_Un[OF oi oo, of n_in n_out] by simp_all
  from eqs have sep:
    "((mask_of m y \<union> EInt ` w_out) - (mask_of m x \<union> EInt ` w_in)) \<inter> mask_of m' x = {}"
    "((mask_of m x \<union> EInt ` w_in) - (mask_of m y \<union> EInt ` w_out)) \<inter> mask_of m' y = {}"
    by blast+
  show ?thesis
    by (intro exI[of _ w_in] exI[of _ w_out] exI[of _ n_in] exI[of _ n_out] conjI
        c d eqs enc new rt sep)
qed

theorem dotprod_decoupling_witness:
  "(\<exists>m' changed. propagate_node matmul_node matmul_model = Inr (m', changed) \<and>
      mask_of matmul_model ''x'' = {} \<and> mask_of matmul_model ''y'' = {EInt 1} \<and>
      mask_of matmul_model ''w'' = {EStr ''i1'', EStr ''o0''} \<and>
      decode_prefixed CHR ''i'' (mask_of matmul_model ''w'') = Inr {1} \<and>
      decode_prefixed CHR ''o'' (mask_of matmul_model ''w'') = Inr {0} \<and>
      mask_of m' ''x'' = {EInt 1} \<and> mask_of m' ''y'' = {EInt 0, EInt 1} \<and>
      mask_of m' ''w'' = {EStr ''i1'', EStr ''o0'', EStr ''o1''} \<and>
      decode_prefixed CHR ''i'' (mask_of m' ''w'') = Inr {1} \<and>
      decode_prefixed CHR ''o'' (mask_of m' ''w'') = Inr {0, 1}) \<and>
   (\<exists>m' changed. propagate_node matmul_node matmul_model2 = Inr (m', changed) \<and>
      mask_of m' ''x'' = {EInt 12} \<and> mask_of m' ''y'' = {EInt 7} \<and>
      mask_of m' ''w'' = {EStr ''i12'', EStr ''o7''})"
proof -
  have h: "op_type matmul_node \<in> set [''MatMul'', ''Conv'']" "\<not> is_depthwise matmul_node"
    "node_input matmul_node = ''x'' # ''w'' # []" "node_output matmul_node = ''y'' # []"
    "''x'' \<noteq> ''w''" "''y'' \<noteq> ''x''" "''y'' \<noteq> ''w''"
    by (simp_all add: is_depthwise_def matmul_node_def)
  have old: "mask_of matmul_model ''x'' = {}" "mask_of matmul_model ''y'' = {EInt 1}"
    "mask_of matmul_model ''w'' = {EStr ''i1'', EStr ''o0''}"
    by (simp_all add: matmul_model_def eval_simps)
  have dold: "decode_prefixed CHR ''i'' (mask_of matmul_model ''w'') = Inr {1}"
    "decode_prefixed CHR ''o'' (mask_of matmul_model ''w'') = Inr {0}"
    by (simp_all add: matmul_model_def eval_simps)
  have win: "{n. \<exists>s. EStr s \<in> {EStr ''i1'', EStr ''o0''} \<and> startswith s CHR ''i'' \<and>
                        py_int (replace_empty s CHR ''i'') = Inr n} = {1}"
    and wout: "{n. \<exists>s. EStr s \<in> {EStr ''i1'', EStr ''o0''} \<and> startswith s CHR ''o'' \<and>
                        py_int (replace_empty s CHR ''o'') = Inr n} = {0}"
    by (auto simp: eval_simps)
  obtain m' changed where run: "propagate_node matmul_node matmul_model = Inr (m', changed)"
    by (simp add: matmul_node_def matmul_model_def eval_simps)
  from dotprod_decoupling[OF h run] obtain w_in w_out n_in n_out where
    f: "w_in = {n. \<exists>s. EStr s \<in> mask_of matmul_model ''w'' \<and> startswith s CHR ''i'' \<and>
                        py_int (replace_empty s CHR ''i'') = Inr n}"
       "w_out = {n. \<exists>s. EStr s \<in> mask_of matmul_model ''w'' \<and> startswith s CHR ''o'' \<and>
                         py_int (replace_empty s CHR ''o'') = Inr n}"
       "decode_prefixed CHR ''i'' (mask_of matmul_model ''w'') = Inr w_in"
       "decode_prefixed CHR ''o'' (mask_of matmul_model ''w'') = Inr w_out"
       "mask_of m' ''x'' = EInt ` w_in \<union> mask_of matmul_model ''x''"
       "mask_of m' ''y'' = EInt ` w_out \<union> mask_of matmul_model ''y''"
       "mask_of m' ''w'' = (\<lambda>e. EStr (CHR ''i'' # fmt_d (the_int e))) ` mask_of m' ''x'' \<union>
                          (\<lambda>e. EStr (CHR ''o'' # fmt_d (the_int e))) ` mask_of m' ''y''"
       "mask_of m' ''x'' = EInt ` n_in" "mask_of m' ''y'' = EInt ` n_out"
       "mask_of m' ''w'' = prefixed CHR ''i'' n_in \<union> prefixed CHR ''o'' n_out"
       "decode_prefixed CHR ''i'' (mask_of m' ''w'') = Inr n_in"
       "decode_prefixed CHR ''o'' (mask_of m' ''w'') = Inr n_out"
    by (elim exE conjE)
  from f(1,2) have wi: "w_in = {1}" "w_out = {0}" unfolding old win wout by simp_all
  note x = f(5)[unfolded wi] and y = f(6)[unfolded wi] and w = f(7) and n = f(8,9)
    and rt = f(11,12)
  from x have x': "mask_of m' ''x'' = {EInt 1}" by (simp add: old)
  from y have y': "mask_of m' ''y'' = {EInt 0, EInt 1}" by (auto simp: old)
  from w have w': "mask_of m' ''w'' = {EStr ''i1'', EStr ''o0'', EStr ''o1''}"
    unfolding x' y' by (auto simp: fmt_d_def dec_digits.simps digit_char_def)
  from n x' have "EInt ` n_in = EInt ` {1}" by simp
  then have nin: "n_in = {1}" by (simp only: inj_image_eq_iff[OF inj_onI[of UNIV EInt, simplified]])
  from n y' have "EInt ` n_out = EInt ` {0, 1}" by auto
  then have nout: "n_out = {0, 1}" by (simp only: inj_image_eq_iff[OF inj_onI[of UNIV EInt, simplified]])
  have first: "\<exists>m' changed. propagate_node matmul_node matmul_model = Inr (m', changed) \<and>
      mask_of matmul_model ''x'' = {} \<and> mask_of matmul_model ''y'' = {EInt 1} \<and>
      mask_of matmul_model ''w'' = {EStr ''i1'', EStr ''o0''} \<and>
      decode_prefixed CHR ''i'' (mask_of matmul_model ''w'') = Inr {1} \<and>
      decode_prefixed CHR ''o'' (mask_of matmul_model ''w'') = Inr {0} \<and>
      mask_of m' ''x'' = {EInt 1} \<and> mask_of m' ''y'' = {EInt 0, EInt 1} \<and>
      mask_of m' ''w'' = {EStr ''i1'', EStr ''o0'', EStr ''o1''} \<and>
      decode_prefixed CHR ''i'' (mask_of m' ''w'') = Inr {1} \<and>
      decode_prefixed CHR ''o'' (mask_of m' ''w'') = Inr {0, 1}"
    by (intro exI[of _ m'] exI[of _ changed] conjI run old dold x' y' w' rt[unfolded nin nout])
  have old2: "mask_of matmul_model2 ''x'' = {}" "mask_of matmul_model2 ''y'' = {EInt 7}"
    "mask_of matmul_model2 ''w'' = {EStr ''i12''}"
    by (simp_all add: matmul_model2_def matmul_model_def eval_simps)
  have win2: "{n. \<exists>s. EStr s \<in> {EStr ''i12''} \<and> startswith s CHR ''i'' \<and>
                        py_int (replace_empty s CHR ''i'') = Inr n} = {12}"
    and wout2: "{n. \<exists>s. EStr s \<in> {EStr ''i12''} \<and> startswith s CHR ''o'' \<and>
                        py_int (replace_empty s CHR ''o'') = Inr n} = {}"
    by (auto simp: eval_simps)
  obtain m2 changed2 where run2: "propagate_node matmul_node matmul_model2 = Inr (m2, changed2)"
    by (simp add: matmul_node_def matmul_model2_def matmul_model_def eval_simps)
  from dotprod_decoupling[OF h run2] obtain v_in v_out k_in k_out where
    g: "v_in = {n. \<exists>s. EStr s \<in> mask_of matmul_model2 ''w'' \<and> startswith s CHR ''i'' \<and>
                        py_int (replace_empty s CHR ''i'') = Inr n}"
       "v_out = {n. \<exists>s. EStr s \<in> mask_of matmul_model2 ''w'' \<and> startswith s CHR ''o'' \<and>
                         py_int (replace_empty s CHR ''o'') = Inr n}"
       "decode_prefixed CHR ''i'' (mask_of matmul_model2 ''w'') = Inr v_in"
       "decode_prefixed CHR ''o'' (mask_of matmul_model2 ''w'') = Inr v_out"
       "mask_of m2 ''x'' = EInt ` v_in \<union> mask_of matmul_model2 ''x''"
       "mask_of m2 ''y'' = EInt ` v_out \<union> mask_of matmul_model2 ''y''"
       "mask_of m2 ''w'' = (\<lambda>e. EStr (CHR ''i'' # fmt_d (the_int e))) ` mask_of m2 ''x'' \<union>
                          (\<lambda>e. EStr (CHR ''o'' # fmt_d (the_int e))) ` mask_of m2 ''y''"
       "mask_of m2 ''x'' = EInt ` k_in" "mask_of m2 ''y'' = EInt ` k_out"
       "mask_of m2 ''w'' = prefixed CHR ''i'' k_in \<union> prefixed CHR ''o'' k_out"
       "decode_prefixed CHR ''i'' (mask_of m2 ''w'') = Inr k_in"
       "decode_prefixed CHR ''o'' (mask_of m2 ''w'') = Inr k_out"
    by (elim exE conjE)
  from g(1,2) have vi: "v_in = {12}" "v_out = {}" unfolding old2 win2 wout2 by simp_all
  note x2 = g(5)[unfolded vi] and y2 = g(6)[unfolded vi] and w2 = g(7)
  from x2 have x2': "mask_of m2 ''x'' = {EInt 12}" by (simp add: old2)
  from y2 have y2': "mask_of m2 ''y'' = {EInt 7}" by (simp add: old2)
  from w2 have w2': "mask_of m2 ''w'' = {EStr ''i12'', EStr ''o7''}"
    unfolding x2' y2' by (auto simp: fmt_d_def dec_digits.simps digit_char_def)
  have second: "\<exists>m' changed. propagate_node matmul_node matmul_model2 = Inr (m', changed) \<and>
      mask_of m' ''x'' = {EInt 12} \<and> mask_of m' ''y'' = {EInt 7} \<and>
      mask_of m' ''w'' = {EStr ''i12'', EStr ''o7''}"
    by (intro exI[of _ m2] exI[of _ changed2] conjI run2 x2' y2' w2')
  from first second show ?thesis by (rule conjI)
qed

subsection \<open>C5: the group attribute of a convolution weight\<close>

text \<open>
  C5: let removal process, at a Conv node with group attribute \<open>g\<close>, an initializer-bearing
  tensor \<open>w\<close> with a non-empty mask whose entries decode, and a recorded shape of rank two
  or more. The source tests \<^verbatim>\<open>groups == 1 or ifm_w == 1\<close> on the weight's own extent
  along axis 1, the input channels per group; the input-channel extent \<open>c_in\<close> of the node
  is related to it by the layout of a convolution weight, \<open>c_in = g * shape[1]\<close>, and is
  positive. Then the step fails with the assertion error \<^verbatim>\<open>Unknown grouped conv
  setting\<close> for every \<open>g\<close> that is neither 1 nor \<open>c_in\<close>; for \<open>g = 1\<close> it goes on to delete
  along axis 1 by the input-side set and along axis 0 by the output-side set; for
  \<open>g = c_in \<noteq> 1\<close> it goes on to delete along axis 0 by the output-side set and to update
  the group attribute.
\<close>

theorem conv_group_check:
  assumes conv: "op_type (graph_node m ! idx) = ''Conv''"
    and init: "get_initializer m w = Some t"
    and msk: "get_tensor_sparsity m w = Some (PySet s)" and ne: "s \<noteq> {}"
    and dec: "decode_prefixed CHR ''i'' s = Inr i_mask" "decode_prefixed CHR ''o'' s = Inr o_mask"
    and shp: "get_tensor_shape m w = Some shp" "1 < length shp"
    and grp: "get_by_name (attribute (graph_node m ! idx)) ''group'' = Some g"
    and layout: "int c_in = g * int (shp ! 1)" "0 < c_in"
  shows "(g \<noteq> 1 \<and> g \<noteq> int c_in \<longrightarrow>
            remove_tensor idx w m = Inl (AssertionError ''Unknown grouped conv setting'')) \<and>
         (g = 1 \<longrightarrow>
            remove_tensor idx w m =
              ebind (remove_masked_tensor_channels t (EInt ` i_mask) 1) (\<lambda>new_t.
              ebind (remove_masked_tensor_channels new_t (EInt ` o_mask) 0) (\<lambda>new_t'.
                Inr (set_tensor_sparsity (set_initializer m w new_t') w PyDict, True)))) \<and>
         (g \<noteq> 1 \<and> g = int c_in \<longrightarrow>
            remove_tensor idx w m =
              ebind (remove_masked_tensor_channels t (EInt ` o_mask) 0) (\<lambda>new_t.
              ebind (list_index (shape new_t) 0) (\<lambda>n0.
                Inr (set_tensor_sparsity
                       (set_initializer (set_node_attribute m idx ''group'' (int n0)) w new_t)
                       w PyDict, True))))"
proof -
  let ?ifm = "shp ! 1"
  have body: "remove_tensor idx w m =
      ebind (if \<not> (g = 1 \<or> ?ifm = 1)
             then Inl (AssertionError ''Unknown grouped conv setting'')
             else if g > 1 then
               ebind (remove_masked_tensor_channels t (EInt ` o_mask) 0) (\<lambda>new_t.
               ebind (list_index (shape new_t) 0) (\<lambda>n0.
                 Inr (set_initializer (set_node_attribute m idx ''group'' (int n0)) w new_t)))
             else
               ebind (remove_masked_tensor_channels t (EInt ` i_mask) 1) (\<lambda>new_t.
               ebind (remove_masked_tensor_channels new_t (EInt ` o_mask) 0) (\<lambda>new_t'.
                 Inr (set_initializer m w new_t'))))
        (\<lambda>m'. Inr (set_tensor_sparsity m' w PyDict, True))"
    using conv init msk dec shp grp
    by (simp add: remove_tensor_def rewrite_tensor_def list_index_def)
  from layout have pos: "0 < g" "0 < ?ifm"
    by (metis mult_eq_0_iff not_gr_zero of_nat_0_less_iff zero_less_mult_pos2 of_nat_0 of_nat_0_eq_iff)+
  have iff: "?ifm = 1 \<longleftrightarrow> g = int c_in"
    using layout pos by auto
  show ?thesis
  proof (intro conjI impI)
    assume "g \<noteq> 1 \<and> g \<noteq> int c_in"
    with iff show "remove_tensor idx w m = Inl (AssertionError ''Unknown grouped conv setting'')"
      by (simp add: body)
  next
    assume "g = 1"
    then show "remove_tensor idx w m =
              ebind (remove_masked_tensor_channels t (EInt ` i_mask) 1) (\<lambda>new_t.
              ebind (remove_masked_tensor_channels new_t (EInt ` o_mask) 0) (\<lambda>new_t'.
                Inr (set_tensor_sparsity (set_initializer m w new_t') w PyDict, True)))"
      by (simp add: body ebind_def split: sum.splits)
  next
    assume a: "g \<noteq> 1 \<and> g = int c_in"
    with pos have "g > 1" by simp
    with a iff show "remove_tensor idx w m =
              ebind (remove_masked_tensor_channels t (EInt ` o_mask) 0) (\<lambda>new_t.
              ebind (list_index (shape new_t) 0) (\<lambda>n0.
                Inr (set_tensor_sparsity
                       (set_initializer (set_node_attribute m idx ''group'' (int n0)) w new_t)
                       w PyDict, True)))"
      by (simp add: body ebind_def split: sum.splits)
  qed
qed

theorem conv_group_check_witness:
  "remove_tensor 0 ''w'' grouped_model = Inl (AssertionError ''Unknown grouped conv setting'') \<and>
   (\<exists>m'. remove_tensor 0 ''w'' dw_model_o = Inr (m', True) \<and>
      get_initializer m' ''w'' = Some \<lparr>shape = [3, 1, 1, 1], flat = [1, 2, 3]\<rparr> \<and>
      get_by_name (attribute (graph_node m' ! 0)) ''group'' = Some 3)"
proof -
  have d: "decode_prefixed CHR ''i'' {EStr ''o3''} = Inr {}"
    "decode_prefixed CHR ''o'' {EStr ''o3''} = Inr {3}"
    by (simp_all add: removal_eval_simps)
  have g: "op_type (graph_node grouped_model ! 0) = ''Conv''"
    "get_initializer grouped_model ''w'' = Some \<lparr>shape = [4, 2, 1, 1], flat = [1, 2, 3, 4, 5, 6, 7, 8]\<rparr>"
    "get_tensor_sparsity grouped_model ''w'' = Some (PySet {EStr ''o3''})"
    "{EStr ''o3''} \<noteq> {}"
    "get_tensor_shape grouped_model ''w'' = Some [4, 2, 1, 1]" "1 < length [4, 2, 1, 1::nat]"
    "get_by_name (attribute (graph_node grouped_model ! 0)) ''group'' = Some 2"
    "int 4 = 2 * int ([4, 2, 1, 1] ! 1)" "0 < (4::nat)"
    by (simp_all add: grouped_model_def grouped_conv_def removal_eval_simps)
  from conv_group_check[OF g(1-4) d g(5-9)]
  have 1: "remove_tensor 0 ''w'' grouped_model = Inl (AssertionError ''Unknown grouped conv setting'')"
    by simp
  have h: "op_type (graph_node dw_model_o ! 0) = ''Conv''"
    "get_initializer dw_model_o ''w'' = Some \<lparr>shape = [4, 1, 1, 1], flat = [1, 2, 3, 4]\<rparr>"
    "get_tensor_sparsity dw_model_o ''w'' = Some (PySet {EStr ''o3''})"
    "{EStr ''o3''} \<noteq> {}"
    "get_tensor_shape dw_model_o ''w'' = Some [4, 1, 1, 1]" "1 < length [4, 1, 1, 1::nat]"
    "get_by_name (attribute (graph_node dw_model_o ! 0)) ''group'' = Some 4"
    "int 4 = 4 * int ([4, 1, 1, 1] ! 1)" "0 < (4::nat)"
    by (simp_all add: dw_model_o_def dw_model_def dw_conv_def removal_eval_simps)
  from conv_group_check[OF h(1-4) d h(5-9)]
  have 2: "remove_tensor 0 ''w'' dw_model_o =
              ebind (remove_masked_tensor_channels \<lparr>shape = [4, 1, 1, 1], flat = [1, 2, 3, 4]\<rparr> (EInt ` {3}) 0) (\<lambda>new_t.
              ebind (list_index (shape new_t) 0) (\<lambda>n0.
                Inr (set_tensor_sparsity
                       (set_initializer (set_node_attribute dw_model_o 0 ''group'' (int n0)) ''w'' new_t)
                       ''w'' PyDict, True)))"
    by simp
  have 3: "remove_masked_tensor_channels \<lparr>shape = [4, 1, 1, 1], flat = [1, 2, 3, 4]\<rparr> (EInt ` {3}) 0 =
             Inr \<lparr>shape = [3, 1, 1, 1], flat = [1, 2, 3]\<rparr>"
    by (simp add: remove_masked_tensor_channels_def np_delete_def ndim_def Let_def upt_rec)
  show ?thesis
    unfolding 1 2 3
    by (simp add: list_index_def dw_model_o_def dw_model_def dw_conv_def get_initializer_def
        set_initializer_def set_tensor_sparsity_def set_node_attribute_def get_by_name_def)
qed

subsection \<open>C6: one pass of each stage\<close>

text \<open>
  C6: \<^verbatim>\<open>PruneChannels.apply\<close> has no loop of its own: after the two precondition
  checks it hands the three stages to \<^verbatim>\<open>model.transform\<close>, in the order seeding,
  propagation, removal, and returns the flag \<^verbatim>\<open>False\<close>. With \<open>transform\<close> running a
  stage once, an invocation returns a model exactly when the preconditions hold and
  seeding, then propagation on its result, then removal on that result each return, once
  each; the model returned is the one removal returns.
\<close>

theorem orchestrator_single_pass:
  "PruneChannels_apply transform spec m = Inr (m', flag) \<longleftrightarrow>
     preconditions m \<and> flag = False \<and>
     (\<exists>m1 m2 b1 b2 b3.
        ApplyMasks_apply spec m = Inr (m1, b1) \<and>
        PropagateMasks_apply m1 = Inr (m2, b2) \<and>
        RemoveMaskedChannels_apply m2 = Inr (m', b3))"
proof (cases "preconditions m")
  case True
  show ?thesis
    unfolding PruneChannels_apply_ok[OF True]
    using True by (auto simp: ebind_Inr_iff transform_Inr_iff)
next
  case False
  from PruneChannels_apply_fail[OF False, of transform spec] False show ?thesis by auto
qed

theorem orchestrator_single_pass_witness:
  "preconditions conv_model \<and>
   (\<exists>m' m1 m2 b1 b2 b3.
      PruneChannels_apply transform conv_spec conv_model = Inr (m', False) \<and>
      ApplyMasks_apply conv_spec conv_model = Inr (m1, b1) \<and>
      PropagateMasks_apply m1 = Inr (m2, b2) \<and>
      RemoveMaskedChannels_apply m2 = Inr (m', b3) \<and>
      get_tensor_shape m' ''y'' = Some [1, 1, 3, 3] \<and>
      get_initializer m' ''w'' = Some \<lparr>shape = [1, 2, 1, 1], flat = [1, 2]\<rparr>)"
proof -
  have "\<exists>m'. PruneChannels_apply transform conv_spec conv_model = Inr (m', False) \<and>
      get_tensor_shape m' ''y'' = Some [1, 1, 3, 3] \<and>
      get_initializer m' ''w'' = Some \<lparr>shape = [1, 2, 1, 1], flat = [1, 2]\<rparr>"
    by (simp add: PruneChannels_apply_def transform_def get_nodes_by_op_type_def
        conv_spec_def conv_model_def conv_node_def PropagateMasks_apply_def
        seeding_eval_simps eval_simps removal_eval_simps upt_rec)
  then obtain m' where
    run: "PruneChannels_apply transform conv_spec conv_model = Inr (m', False)"
    and res: "get_tensor_shape m' ''y'' = Some [1, 1, 3, 3]"
      "get_initializer m' ''w'' = Some \<lparr>shape = [1, 2, 1, 1], flat = [1, 2]\<rparr>"
    by (elim exE conjE)
  from orchestrator_single_pass[THEN iffD1, OF run] obtain m1 m2 b1 b2 b3 where
    pre: "preconditions conv_model"
    and st: "ApplyMasks_apply conv_spec conv_model = Inr (m1, b1)"
      "PropagateMasks_apply m1 = Inr (m2, b2)"
      "RemoveMaskedChannels_apply m2 = Inr (m', b3)"
    by (elim exE conjE)
  show ?thesis
    by (intro conjI pre exI[of _ m'] exI[of _ m1] exI[of _ m2] exI[of _ b1] exI[of _ b2]
        exI[of _ b3] run st res)
qed

subsection \<open>C7: bidirectional elementwise operators\<close>

text \<open>
  C7: for a node of the bidirectional class (Mul, Div, MultiThreshold, Quant, Relu) whose
  tensors carry masks that are sets or absent, a propagation step returns and leaves on
  every input and every output tensor the union of all the masks read for the node's
  inputs and outputs; so all of them are equal afterwards.
\<close>

theorem bidirectional_union:
  assumes bidir: "op_type nd \<in> set eltwise_ops_bidirectional"
    and ok: "\<forall>t\<in>set (node_input nd @ node_output nd). get_tensor_sparsity m t \<noteq> Some PyDict"
  shows "\<exists>m' changed. propagate_node nd m = Inr (m', changed) \<and>
           (\<forall>t\<in>set (node_input nd @ node_output nd).
              get_tensor_sparsity m' t =
                Some (PySet (\<Union>t'\<in>set (node_input nd @ node_output nd). mask_of m t')))"
proof -
  let ?U = "\<Union>t'\<in>set (node_input nd @ node_output nd). mask_of m t'"
  let ?mi = "map mask_set (map (get_tensor_sparsity m) (node_input nd))"
  let ?mo = "map mask_set (map (get_tensor_sparsity m) (node_output nd))"
  have U: "\<Union>(set ?mi) \<union> \<Union>(set ?mo) = ?U"
    unfolding Union_mask_sets by auto
  from ok have ei: "map_err ensure_masktype_is_set (map (get_tensor_sparsity m) (node_input nd)) = Inr ?mi"
    by (intro map_err_ensure_ok) auto
  from ok have eo: "map_err ensure_masktype_is_set (map (get_tensor_sparsity m) (node_output nd)) = Inr ?mo"
    by (intro map_err_ensure_ok) auto
  let ?m1 = "set_sparsity_all m (zip (node_input nd) (map (\<lambda>x. ?U) ?mi))"
  let ?m2 = "set_sparsity_all ?m1 (zip (node_output nd) (map (\<lambda>x. ?U) ?mo))"
  have run: "propagate_node nd m = Inr (?m2, map (\<lambda>x. ?U) ?mi \<noteq> ?mi \<or> map (\<lambda>x. ?U) ?mo \<noteq> ?mo)"
    unfolding propagate_node_def ei eo
    by (simp only: ebind_Inr update_bidirectional[OF bidir] U Let_def prod.case)
  have "get_tensor_sparsity ?m2 t = Some (PySet ?U)"
    if t: "t \<in> set (node_input nd @ node_output nd)" for t
  proof (cases "t \<in> set (node_output nd)")
    case True
    then have "map_of (rev (zip (node_output nd) (map (\<lambda>x. ?U) ?mo))) t = Some ?U"
      by (intro map_of_zip_const) auto
    then show ?thesis by (simp only: get_set_sparsity_all option.case)
  next
    case False
    with t have ti: "t \<in> set (node_input nd)" by simp
    from False have "map_of (rev (zip (node_output nd) (map (\<lambda>x. ?U) ?mo))) t = None"
      by (rule map_of_zip_notin)
    moreover from ti have "map_of (rev (zip (node_input nd) (map (\<lambda>x. ?U) ?mi))) t = Some ?U"
      by (intro map_of_zip_const) auto
    ultimately show ?thesis by (simp only: get_set_sparsity_all option.case)
  qed
  with run show ?thesis by blast
qed

theorem bidirectional_union_witness:
  "\<exists>m' changed. propagate_node relu_node relu_model = Inr (m', changed) \<and>
     get_tensor_sparsity m' ''x'' = Some (PySet {EInt 1}) \<and>
     get_tensor_sparsity m' ''y'' = Some (PySet {EInt 1})"
proof -
  have h: "op_type relu_node \<in> set eltwise_ops_bidirectional"
    "\<forall>t\<in>set (node_input relu_node @ node_output relu_node).
       get_tensor_sparsity relu_model t \<noteq> Some PyDict"
    by (simp_all add: relu_node_def relu_model_def eltwise_ops_bidirectional_def
        get_tensor_sparsity_def)
  have u: "(\<Union>t'\<in>set (node_input relu_node @ node_output relu_node). mask_of relu_model t') =
             {EInt 1}"
    by (simp add: relu_node_def relu_model_def mask_of_def mask_set_def get_tensor_sparsity_def)
  from bidirectional_union[OF h] show ?thesis
    unfolding u by (simp add: relu_node_def)
qed

subsection \<open>C8: backward-only elementwise operators\<close>

text \<open>
  C8: for a node of the backward-only class (Add, Sub, BatchNormalization) whose tensors
  carry masks that are sets or absent, a propagation step returns, leaves on every output
  tensor the mask read for it, and leaves on every input tensor (that is not also an
  output of the node) the union of all the masks read for the node's inputs and outputs.
\<close>

theorem bwdonly_containment:
  assumes bwd: "op_type nd \<in> set eltwise_ops_bwdonly"
    and ok: "\<forall>t\<in>set (node_input nd @ node_output nd). get_tensor_sparsity m t \<noteq> Some PyDict"
  shows "\<exists>m' changed. propagate_node nd m = Inr (m', changed) \<and>
           (\<forall>t\<in>set (node_output nd). get_tensor_sparsity m' t = Some (PySet (mask_of m t))) \<and>
           (\<forall>t\<in>set (node_input nd). t \<notin> set (node_output nd) \<longrightarrow>
              get_tensor_sparsity m' t =
                Some (PySet (\<Union>t'\<in>set (node_input nd @ node_output nd). mask_of m t')))"
proof -
  let ?U = "\<Union>t'\<in>set (node_input nd @ node_output nd). mask_of m t'"
  let ?mi = "map mask_set (map (get_tensor_sparsity m) (node_input nd))"
  let ?mo = "map mask_set (map (get_tensor_sparsity m) (node_output nd))"
  have U: "\<Union>(set ?mi) \<union> \<Union>(set ?mo) = ?U"
    unfolding Union_mask_sets by auto
  from ok have ei: "map_err ensure_masktype_is_set (map (get_tensor_sparsity m) (node_input nd)) = Inr ?mi"
    by (intro map_err_ensure_ok) auto
  from ok have eo: "map_err ensure_masktype_is_set (map (get_tensor_sparsity m) (node_output nd)) = Inr ?mo"
    by (intro map_err_ensure_ok) auto
  let ?m1 = "set_sparsity_all m (zip (node_input nd) (map (\<lambda>x. ?U) ?mi))"
  let ?m2 = "set_sparsity_all ?m1 (zip (node_output nd) ?mo)"
  have run: "propagate_node nd m = Inr (?m2, map (\<lambda>x. ?U) ?mi \<noteq> ?mi \<or> ?mo \<noteq> ?mo)"
    unfolding propagate_node_def ei eo
    by (simp only: ebind_Inr update_bwdonly[OF bwd] U Let_def prod.case)
  have out: "get_tensor_sparsity ?m2 t = Some (PySet (mask_of m t))"
    if t: "t \<in> set (node_output nd)" for t
  proof -
    from t have "t \<in> fst ` set (rev (zip (node_output nd) ?mo))"
      by (simp add: image_iff) (metis fst_conv in_set_impl_in_set_zip1 length_map)
    then obtain v where v: "map_of (rev (zip (node_output nd) ?mo)) t = Some v"
      by (metis map_of_eq_None_iff not_Some_eq)
    then have "(t, v) \<in> set (zip (node_output nd) ?mo)" by (metis map_of_SomeD set_rev)
    then have "v = mask_of m t"
      by (auto simp: in_set_zip mask_of_def)
    with v show ?thesis by (simp only: get_set_sparsity_all option.case)
  qed
  have inp: "get_tensor_sparsity ?m2 t = Some (PySet ?U)"
    if ti: "t \<in> set (node_input nd)" and no: "t \<notin> set (node_output nd)" for t
  proof -
    from no have "map_of (rev (zip (node_output nd) ?mo)) t = None"
      by (rule map_of_zip_notin)
    moreover from ti have "map_of (rev (zip (node_input nd) (map (\<lambda>x. ?U) ?mi))) t = Some ?U"
      by (intro map_of_zip_const) auto
    ultimately show ?thesis by (simp only: get_set_sparsity_all option.case)
  qed
  from run out inp show ?thesis by blast
qed

theorem bwdonly_containment_witness:
  "\<exists>m' changed. propagate_node add_node add_model = Inr (m', changed) \<and>
     get_tensor_sparsity m' ''y'' = Some (PySet {EInt 2}) \<and>
     get_tensor_sparsity m' ''a'' = Some (PySet {EInt 1, EInt 2}) \<and>
     get_tensor_sparsity m' ''b'' = Some (PySet {EInt 1, EInt 2})"
proof -
  have h: "op_type add_node \<in> set eltwise_ops_bwdonly"
    "\<forall>t\<in>set (node_input add_node @ node_output add_node).
       get_tensor_sparsity add_model t \<noteq> Some PyDict"
    by (simp_all add: add_node_def add_model_def eltwise_ops_bwdonly_def
        get_tensor_sparsity_def)
  have u: "(\<Union>t'\<in>set (node_input add_node @ node_output add_node). mask_of add_model t') =
             {EInt 1, EInt 2}"
    by (auto simp: add_node_def add_model_def mask_of_def mask_set_def get_tensor_sparsity_def)
  have y: "mask_of add_model ''y'' = {EInt 2}"
    by (simp add: add_model_def mask_of_def mask_set_def get_tensor_sparsity_def)
  from bwdonly_containment[OF h] show ?thesis
    unfolding u by (simp add: add_node_def y)
qed

subsection \<open>C9: removal on a graph without pending masks\<close>

text \<open>
  C9: a removal sweep over a graph in which every tensor's mask is absent or empty changes
  no shape, no initializer and no mask, and reports no change. The code does so for masks
  that are absent or the empty dict (\<open>RemoveMaskedChannels_noop\<close>: the model is returned
  as it is, with the flag \<^verbatim>\<open>False\<close>). It does not for the empty mask that propagation
  leaves, the empty set: the test \<^verbatim>\<open>mask == {}\<close> compares with the empty dict, so the
  tensor is processed, its mask is rewritten to \<^verbatim>\<open>{}\<close> and the sweep reports a change.
  The graph \<open>relu_swept\<close> is what \<^verbatim>\<open>PropagateMasks\<close> makes of a rectifier without any
  mask; the theorem evaluates the sweep on it.
\<close>

theorem removal_empty_set_reports_change:
  "PropagateMasks_apply relu_plain = Inr (relu_swept, False) \<and>
   mask_of relu_swept ''x'' = {} \<and> mask_of relu_swept ''y'' = {} \<and>
   (case RemoveMaskedChannels_apply relu_swept of
      Inl e \<Rightarrow> False
    | Inr (m', need_rerun) \<Rightarrow>
        need_rerun \<and> tensor_shape m' = tensor_shape relu_swept \<and>
        get_tensor_sparsity relu_swept ''x'' = Some (PySet {}) \<and>
        get_tensor_sparsity m' ''x'' = Some PyDict)"
proof -
  have 1: "PropagateMasks_apply relu_plain = Inr (relu_swept, False)"
    by (simp add: PropagateMasks_apply_def relu_plain_def relu_swept_def relu_node_def eval_simps)
  have 2: "mask_of relu_swept ''x'' = {}" "mask_of relu_swept ''y'' = {}"
    by (simp_all add: relu_swept_def eval_simps)
  have 3: "case RemoveMaskedChannels_apply relu_swept of
      Inl e \<Rightarrow> False
    | Inr (m', need_rerun) \<Rightarrow>
        need_rerun \<and> tensor_shape m' = tensor_shape relu_swept \<and>
        get_tensor_sparsity relu_swept ''x'' = Some (PySet {}) \<and>
        get_tensor_sparsity m' ''x'' = Some PyDict"
    by (simp add: relu_swept_def relu_node_def removal_eval_simps fun_eq_iff)
  from 1 2 3 show ?thesis by simp
qed

subsection \<open>C10: the exemption of scalar tensors\<close>

text \<open>
  C10: let a tensor have an initializer of rank 0, or with one element in total, and
  carry a non-empty set as its mask. The array helper returns the initializer as it is
  for every mask and axis. At a node that is neither MatMul nor Conv the removal step for
  the tensor returns, with the initializer written back unchanged, the mask replaced by
  the empty dict and the changed flag raised. And whenever a removal sweep over a graph
  that references the tensor returns, the tensor has the same initializer and the same
  recorded shape as before, its mask is the empty dict, and the sweep reports a change.
\<close>

theorem scalar_exemption:
  assumes init: "get_initializer m k = Some t" and sc: "scalar_like t"
    and msk: "get_tensor_sparsity m k = Some (PySet s)" and ne: "s \<noteq> {}"
  shows "(\<forall>axis. remove_masked_tensor_channels t s axis = Inr t) \<and>
         (\<forall>idx. op_type (graph_node m ! idx) \<notin> set [''MatMul'', ''Conv''] \<longrightarrow>
            remove_tensor idx k m =
              Inr (set_tensor_sparsity (set_initializer m k t) k PyDict, True)) \<and>
         (\<forall>m' need_rerun. RemoveMaskedChannels_apply m = Inr (m', need_rerun) \<and> k \<in> referenced m \<longrightarrow>
            get_initializer m' k = Some t \<and> get_tensor_shape m' k = get_tensor_shape m k \<and>
            get_tensor_sparsity m' k = Some PyDict \<and> need_rerun)"
proof (intro conjI allI impI)
  fix axis show "remove_masked_tensor_channels t s axis = Inr t"
    by (rule rmtc_scalar[OF sc])
next
  fix idx assume "op_type (graph_node m ! idx) \<notin> set [''MatMul'', ''Conv'']"
  then show "remove_tensor idx k m =
              Inr (set_tensor_sparsity (set_initializer m k t) k PyDict, True)"
    by (rule remove_tensor_plain_scalar[OF init sc msk])
next
  fix m' need_rerun
  assume a: "RemoveMaskedChannels_apply m = Inr (m', need_rerun) \<and> k \<in> referenced m"
  then have e: "sweep_effect (referenced m) m False m' need_rerun"
    by (intro RemoveMaskedChannels_effect) simp
  from msk have sm: "is_set_mask (tensor_sparsity m k)"
    by (simp add: is_set_mask_def get_tensor_sparsity_def)
  from e init sc show "get_initializer m' k = Some t"
    unfolding sweep_effect_def get_initializer_def by blast
  from e init sc show "get_tensor_shape m' k = get_tensor_shape m k"
    unfolding sweep_effect_def get_initializer_def get_tensor_shape_def by blast
  from e a sm show "get_tensor_sparsity m' k = Some PyDict"
    unfolding sweep_effect_def get_tensor_sparsity_def by simp
  from e a sm show need_rerun
    unfolding sweep_effect_def by blast
qed

theorem scalar_exemption_witness:
  "get_initializer mul_model ''s'' = Some \<lparr>shape = [], flat = [2]\<rparr> \<and>
   scalar_like \<lparr>shape = [], flat = [2]\<rparr> \<and>
   get_tensor_sparsity mul_model ''s'' = Some (PySet {EInt 1, EInt 5}) \<and>
   ''s'' \<in> referenced mul_model \<and>
   remove_masked_tensor_channels \<lparr>shape = [], flat = [2]\<rparr> {EInt 1, EInt 5} 0 =
     Inr \<lparr>shape = [], flat = [2]\<rparr> \<and>
   (\<exists>m'. RemoveMaskedChannels_apply mul_model = Inr (m', True) \<and>
      get_initializer m' ''s'' = Some \<lparr>shape = [], flat = [2]\<rparr> \<and>
      get_tensor_shape m' ''s'' = Some [] \<and>
      get_tensor_sparsity m' ''s'' = Some PyDict)"
proof -
  have init: "get_initializer mul_model ''s'' = Some \<lparr>shape = [], flat = [2]\<rparr>"
    and sc: "scalar_like \<lparr>shape = [], flat = [2]\<rparr>"
    and msk: "get_tensor_sparsity mul_model ''s'' = Some (PySet {EInt 1, EInt 5})"
    and ne: "{EInt 1, EInt 5} \<noteq> {}"
    and ref: "''s'' \<in> referenced mul_model"
    and shp: "get_tensor_shape mul_model ''s'' = Some []"
    by (simp_all add: mul_model_def mul_node_def get_initializer_def get_tensor_sparsity_def
        get_tensor_shape_def scalar_like_def ndim_def referenced_def)
  obtain m' b where run: "RemoveMaskedChannels_apply mul_model = Inr (m', b)"
    by (simp add: mul_model_def mul_node_def removal_eval_simps)
  note th = scalar_exemption[OF init sc msk ne]
  from th have f: "remove_masked_tensor_channels \<lparr>shape = [], flat = [2]\<rparr> {EInt 1, EInt 5} 0 =
     Inr \<lparr>shape = [], flat = [2]\<rparr>" by blast
  from th run ref have g: "get_initializer m' ''s'' = Some \<lparr>shape = [], flat = [2]\<rparr> \<and>
      get_tensor_shape m' ''s'' = get_tensor_shape mul_model ''s'' \<and>
      get_tensor_sparsity m' ''s'' = Some PyDict \<and> b" by blast
  with init sc msk ref f run shp show ?thesis by auto
qed

end
